theory Spec2Isabelle
  imports Complex_Main
begin

section \<open>JavaScript numbers\<close>

text \<open>
  The service computes on JavaScript numbers. A finite number is modelled by the real it
  denotes; the one non-finite value the signature code produces from finite input,
  \<open>NaN\<close> (from \<open>0 / 0\<close>), is a value of its own. Every arithmetic operation and
  \<open>Math.sqrt\<close> propagate \<open>NaN\<close>; every comparison with \<open>NaN\<close> is false.
  In the signature and the similarity the rounding and the overflow of doubles are not
  modelled. In \<open>classifyByEmbedding\<close>, where \<open>Math.floor\<close> and the conversion to 32 bits
  turn a rounding in the last place into another hash, they are: see \<open>rounding\<close> below.
\<close>

datatype jsnum = Num real | NaN

fun js_add :: "jsnum \<Rightarrow> jsnum \<Rightarrow> jsnum" where
  "js_add (Num a) (Num b) = Num (a + b)"
| "js_add _ _ = NaN"

fun js_mul :: "jsnum \<Rightarrow> jsnum \<Rightarrow> jsnum" where
  "js_mul (Num a) (Num b) = Num (a * b)"
| "js_mul _ _ = NaN"

fun js_sqrt :: "jsnum \<Rightarrow> jsnum" where
  "js_sqrt (Num a) = (if a < 0 then NaN else Num (sqrt a))"
| "js_sqrt NaN = NaN"

fun js_gt :: "jsnum \<Rightarrow> jsnum \<Rightarrow> bool" where
  "js_gt (Num a) (Num b) = (a > b)"
| "js_gt _ _ = False"

text \<open>
  \<open>a / b\<close> where the code has already established \<open>b > 0\<close> or where \<open>a = 0\<close>:
  the quotient of two finite numbers with a non-zero divisor, \<open>NaN\<close> for \<open>0 / 0\<close>
  and whenever an operand is \<open>NaN\<close>. (A non-zero number is never divided by zero in the
  functions below, so the infinities do not arise.)
\<close>

fun js_div :: "jsnum \<Rightarrow> jsnum \<Rightarrow> jsnum" where
  "js_div (Num a) (Num b) = (if b = 0 then NaN else Num (a / b))"
| "js_div _ _ = NaN"

section \<open>SignatureEngine: \<open>generateEmbeddingSignature\<close> and \<open>calculateSimilarity\<close>\<close>

type_synonym embedding = "real list"
type_synonym signature = "jsnum list"

text \<open>\<open>Array.prototype.slice(start, end)\<close> for \<open>0 \<le> start \<le> end\<close>; \<open>end\<close> is clamped
  to the length of the array.\<close>

definition slice :: "nat \<Rightarrow> nat \<Rightarrow> 'a list \<Rightarrow> 'a list" where
  "slice start end xs = take (end - start) (drop start xs)"

text \<open>\<open>segment.reduce((a, b) => a + b, 0)\<close>: a left fold from \<open>0\<close>.\<close>

definition reduce_sum :: "real list \<Rightarrow> real" where
  "reduce_sum segment = foldl (\<lambda>a b. a + b) 0 segment"

text \<open>
  \<^verbatim>\<open>
  static generateEmbeddingSignature(embedding) {
    const segmentSize = Math.floor(embedding.length / 8);
    const signature = [];
    for (let i = 0; i < 8; i++) {
      const segment = embedding.slice(i * segmentSize, (i + 1) * segmentSize);
      const avg = segment.reduce((a, b) => a + b, 0) / segment.length;
      signature.push(avg);
    }
    return signature;
  }
  \<close>
  The loop is written as a recursion on the counter \<open>i\<close> with the array being built.
\<close>

definition segment_avg :: "real list \<Rightarrow> jsnum" where
  "segment_avg segment = js_div (Num (reduce_sum segment)) (Num (real (length segment)))"

function signature_loop :: "embedding \<Rightarrow> nat \<Rightarrow> nat \<Rightarrow> signature \<Rightarrow> signature" where
  "signature_loop embedding segmentSize i signature =
     (if i < 8
      then signature_loop embedding segmentSize (i + 1)
             (signature @ [segment_avg (slice (i * segmentSize) ((i + 1) * segmentSize) embedding)])
      else signature)"
  by pat_completeness auto
termination
  by (relation "measure (\<lambda>(embedding, segmentSize, i, signature). 8 - i)") auto

declare signature_loop.simps [simp del]

definition generateEmbeddingSignature :: "embedding \<Rightarrow> signature" where
  "generateEmbeddingSignature embedding =
     signature_loop embedding (length embedding div 8) 0 []"

text \<open>
  \<^verbatim>\<open>
  static calculateSimilarity(sig1, sig2) {
    if (sig1.length !== sig2.length) return 0;
    let dotProduct = 0; let norm1 = 0; let norm2 = 0;
    for (let i = 0; i < sig1.length; i++) {
      dotProduct += sig1[i] * sig2[i];
      norm1 += sig1[i] * sig1[i];
      norm2 += sig2[i] * sig2[i];
    }
    const magnitude = Math.sqrt(norm1) * Math.sqrt(norm2);
    return magnitude > 0 ? dotProduct / magnitude : 0;
  }
  \<close>
  The loop walks both arrays in step; it is only entered with arrays of equal length.
\<close>

fun similarity_loop ::
  "signature \<Rightarrow> signature \<Rightarrow> jsnum \<times> jsnum \<times> jsnum \<Rightarrow> jsnum \<times> jsnum \<times> jsnum" where
  "similarity_loop (a # sig1) (b # sig2) (dotProduct, norm1, norm2) =
     similarity_loop sig1 sig2
       (js_add dotProduct (js_mul a b), js_add norm1 (js_mul a a), js_add norm2 (js_mul b b))"
| "similarity_loop _ _ acc = acc"

definition calculateSimilarity :: "signature \<Rightarrow> signature \<Rightarrow> jsnum" where
  "calculateSimilarity sig1 sig2 =
     (if length sig1 \<noteq> length sig2 then Num 0
      else (case similarity_loop sig1 sig2 (Num 0, Num 0, Num 0) of
              (dotProduct, norm1, norm2) \<Rightarrow>
                (let magnitude = js_mul (js_sqrt norm1) (js_sqrt norm2)
                 in if js_gt magnitude (Num 0) then js_div dotProduct magnitude else Num 0)))"

section \<open>IdentityRegistry: \<open>personEmbeddingStore\<close> and \<open>findOrCreatePersonId\<close>\<close>

text \<open>
  \<open>personEmbeddingStore\<close> is a JavaScript \<open>Map\<close> from person id to signature. A \<open>Map\<close>
  iterates in insertion order, so the store is the list of its entries in that order; it is
  threaded through every function that reads or writes it. \<open>Map.prototype.set\<close> replaces
  the value of a key that is present (the entry keeps its place) and appends a new entry
  otherwise; \<open>size\<close> is the number of entries.
\<close>

type_synonym person_store = "(string \<times> signature) list"

fun map_set :: "'k \<Rightarrow> 'v \<Rightarrow> ('k \<times> 'v) list \<Rightarrow> ('k \<times> 'v) list" where
  "map_set k v [] = [(k, v)]"
| "map_set k v ((k', v') # m) = (if k' = k then (k, v) # m else (k', v') # map_set k v m)"

definition clearPersonStore :: "person_store \<Rightarrow> person_store" where
  "clearPersonStore store = []"

definition getTrackedPersons :: "person_store \<Rightarrow> string list" where
  "getTrackedPersons store = map fst store"

text \<open>\<open>String(n)\<close> for a non-negative integer: its decimal digits, most significant first.\<close>

definition digit_char :: "nat \<Rightarrow> char" where
  "digit_char d = char_of (48 + d)"

function js_String :: "nat \<Rightarrow> string" where
  "js_String n = (if n < 10 then [digit_char n] else js_String (n div 10) @ [digit_char (n mod 10)])"
  by pat_completeness auto
termination
  by (relation "measure (\<lambda>n. n)") auto

declare js_String.simps [simp del]

text \<open>\<open>s.padStart(targetLength, c)\<close> for a one-character pad string \<open>c\<close>.\<close>

definition padStart :: "nat \<Rightarrow> char \<Rightarrow> string \<Rightarrow> string" where
  "padStart targetLength c s = replicate (targetLength - length s) c @ s"

text \<open>
  \<^verbatim>\<open>
  static findOrCreatePersonId(embedding, filename) {
    const signature = this.generateEmbeddingSignature(embedding);
    for (const [personId, storedSignature] of personEmbeddingStore) {
      const similarity = this.calculateSimilarity(signature, storedSignature);
      if (similarity > 0.85) { return personId; }
    }
    const newPersonId = `person_${String(personEmbeddingStore.size + 1).padStart(4, '0')}`;
    personEmbeddingStore.set(newPersonId, signature);
    return newPersonId;
  }
  \<close>
  \<open>scan_store\<close> is the \<open>for\<close> loop over the entries, with its early return.
\<close>

fun scan_store :: "signature \<Rightarrow> person_store \<Rightarrow> string option" where
  "scan_store signature [] = None"
| "scan_store signature ((personId, storedSignature) # rest) =
     (if js_gt (calculateSimilarity signature storedSignature) (Num (85 / 100)) then Some personId
      else scan_store signature rest)"

definition findOrCreatePersonId :: "person_store \<Rightarrow> embedding \<Rightarrow> string \<Rightarrow> string \<times> person_store" where
  "findOrCreatePersonId store embedding filename =
     (let signature = generateEmbeddingSignature embedding
      in case scan_store signature store of
           Some personId \<Rightarrow> (personId, store)
         | None \<Rightarrow>
             (let newPersonId = ''person_'' @ padStart 4 (CHR ''0'') (js_String (length store + 1))
              in (newPersonId, map_set newPersonId signature store)))"

section \<open>KeywordClassifier: \<open>KEYWORDS\<close> and \<open>containsKeyword\<close>\<close>

text \<open>
  A file name is a \<open>string\<close>; its characters stand for the UTF-16 code units below 256
  (ASCII and Latin-1), and \<open>charCodeAt\<close> is \<open>of_char\<close>.
\<close>

definition KEYWORDS_vehicle_types :: "string list" where
  "KEYWORDS_vehicle_types =
    [''car'', ''vehicle'', ''auto'', ''automobile'', ''truck'', ''bike'', ''bicycle'',
     ''motorcycle'', ''motorbike'', ''bus'', ''van'', ''suv'', ''jeep'', ''taxi'', ''cab'',
     ''scooter'', ''moped'', ''tractor'', ''trailer'', ''ambulance'', ''firetruck'',
     ''police'', ''lorry'', ''pickup'', ''sedan'', ''hatchback'', ''convertible'', ''coupe'',
     ''wagon'', ''minivan'', ''limousine'', ''roadster'', ''sports car'']"

definition KEYWORDS_vehicle_brands :: "string list" where
  "KEYWORDS_vehicle_brands =
    [''tesla'', ''bmw'', ''audi'', ''honda'', ''toyota'', ''ford'', ''mercedes'', ''benz'',
     ''volkswagen'', ''vw'', ''nissan'', ''hyundai'', ''kia'', ''chevrolet'', ''chevy'',
     ''mazda'', ''subaru'', ''lexus'', ''infiniti'', ''acura'', ''porsche'', ''ferrari'',
     ''lamborghini'', ''maserati'', ''bentley'', ''rolls'', ''royce'', ''jaguar'',
     ''land rover'', ''range rover'', ''volvo'', ''saab'', ''peugeot'', ''renault'', ''fiat'',
     ''alfa romeo'', ''chrysler'', ''dodge'', ''jeep'', ''ram'', ''gmc'', ''cadillac'',
     ''buick'', ''lincoln'', ''suzuki'', ''mitsubishi'', ''isuzu'', ''daihatsu'', ''tata'',
     ''mahindra'', ''maruti'', ''skoda'', ''seat'', ''mini'', ''smart'', ''genesis'',
     ''rivian'', ''lucid'', ''polestar'', ''harley'', ''ducati'', ''yamaha'', ''kawasaki'',
     ''ktm'', ''triumph'', ''royal enfield'', ''bajaj'', ''hero'', ''tvs'']"

definition KEYWORDS_vehicle_related :: "string list" where
  "KEYWORDS_vehicle_related =
    [''driving'', ''drive'', ''rode'', ''riding'', ''parked'', ''parking'', ''garage'',
     ''highway'', ''road'', ''traffic'', ''wheel'', ''tire'', ''engine'', ''dashboard'',
     ''steering'', ''saveclip'', ''carshow'', ''autoshow'', ''dealership'', ''showroom'',
     ''roadtrip'', ''carwash'']"

definition KEYWORDS_pet_dogs :: "string list" where
  "KEYWORDS_pet_dogs =
    [''dog'', ''puppy'', ''pup'', ''doggy'', ''doggie'', ''canine'', ''hound'', ''mutt'',
     ''labrador'', ''lab'', ''retriever'', ''golden'', ''german shepherd'', ''shepherd'',
     ''gsd'', ''bulldog'', ''french bulldog'', ''frenchie'', ''poodle'', ''beagle'', ''husky'',
     ''malamute'', ''corgi'', ''pug'', ''boxer'', ''rottweiler'', ''doberman'', ''dalmatian'',
     ''chihuahua'', ''yorkie'', ''yorkshire'', ''shih tzu'', ''maltese'', ''pomeranian'',
     ''pom'', ''dachshund'', ''weiner'', ''pitbull'', ''pit bull'', ''terrier'', ''collie'',
     ''border collie'', ''aussie'', ''australian shepherd'', ''cocker spaniel'', ''spaniel'',
     ''mastiff'', ''great dane'', ''saint bernard'', ''bernese'', ''newfoundland'', ''akita'',
     ''shiba'', ''chow'', ''samoyed'', ''vizsla'', ''weimaraner'', ''pointer'', ''setter'',
     ''basset'', ''bloodhound'', ''greyhound'', ''whippet'', ''bichon'', ''havanese'',
     ''lhasa'', ''schnauzer'', ''airedale'', ''westie'', ''scottie'', ''cairn'',
     ''jack russell'', ''papillon'', ''pekingese'', ''cavalier'', ''boston'']"

definition KEYWORDS_pet_cats :: "string list" where
  "KEYWORDS_pet_cats =
    [''cat'', ''kitten'', ''kitty'', ''kittycat'', ''feline'', ''meow'', ''persian'',
     ''siamese'', ''maine coon'', ''ragdoll'', ''bengal'', ''abyssinian'', ''sphynx'',
     ''british shorthair'', ''scottish fold'', ''russian blue'', ''birman'', ''burmese'',
     ''oriental'', ''himalayan'', ''turkish'', ''norwegian'', ''siberian'',
     ''american shorthair'', ''exotic'', ''devon rex'', ''cornish rex'', ''manx'', ''tabby'']"

definition KEYWORDS_pet_others :: "string list" where
  "KEYWORDS_pet_others =
    [''pet'', ''animal'', ''bird'', ''parrot'', ''parakeet'', ''budgie'', ''cockatiel'',
     ''macaw'', ''canary'', ''finch'', ''cockatoo'', ''lovebird'', ''conure'', ''rabbit'',
     ''bunny'', ''hamster'', ''guinea pig'', ''gerbil'', ''mouse'', ''rat'', ''ferret'',
     ''fish'', ''goldfish'', ''betta'', ''aquarium'', ''turtle'', ''tortoise'', ''lizard'',
     ''gecko'', ''iguana'', ''snake'', ''python'', ''frog'', ''toad'', ''hermit crab'',
     ''horse'', ''pony'', ''mare'', ''stallion'', ''foal'', ''equine'', ''cow'', ''calf'',
     ''bull'', ''goat'', ''sheep'', ''lamb'', ''pig'', ''piglet'', ''chicken'', ''hen'',
     ''rooster'', ''duck'', ''goose'', ''turkey'', ''donkey'', ''mule'', ''llama'', ''alpaca'']"

definition KEYWORDS_pet_related :: "string list" where
  "KEYWORDS_pet_related =
    [''fauna'', ''creature'', ''furry'', ''paw'', ''tail'', ''whiskers'', ''collar'',
     ''leash'', ''fetch'', ''bark'', ''woof'', ''meowing'', ''purr'', ''vet'', ''petshop'',
     ''adoption'', ''rescue'']"

definition KEYWORDS_nature_landscapes :: "string list" where
  "KEYWORDS_nature_landscapes =
    [''nature'', ''landscape'', ''scenery'', ''scenic'', ''vista'', ''panorama'', ''view'',
     ''mountain'', ''hill'', ''peak'', ''summit'', ''cliff'', ''canyon'', ''valley'',
     ''gorge'', ''beach'', ''coast'', ''shore'', ''seaside'', ''oceanfront'', ''waterfront'',
     ''bay'', ''cove'', ''forest'', ''woods'', ''woodland'', ''jungle'', ''rainforest'',
     ''grove'', ''thicket'', ''desert'', ''dune'', ''oasis'', ''savanna'', ''prairie'',
     ''steppe'', ''tundra'', ''island'', ''peninsula'', ''archipelago'', ''atoll'', ''reef'',
     ''lagoon'']"

definition KEYWORDS_nature_water :: "string list" where
  "KEYWORDS_nature_water =
    [''lake'', ''river'', ''stream'', ''creek'', ''brook'', ''waterfall'', ''cascade'',
     ''rapids'', ''ocean'', ''sea'', ''pond'', ''pool'', ''spring'', ''fountain'', ''geyser'',
     ''hot spring'', ''wetland'', ''marsh'', ''swamp'', ''bog'', ''estuary'', ''delta'',
     ''fjord'']"

definition KEYWORDS_nature_sky :: "string list" where
  "KEYWORDS_nature_sky =
    [''sky'', ''cloud'', ''sunset'', ''sunrise'', ''dawn'', ''dusk'', ''twilight'',
     ''golden hour'', ''rainbow'', ''aurora'', ''northern lights'', ''stars'', ''moon'',
     ''moonlight'', ''starry'']"

definition KEYWORDS_nature_plants :: "string list" where
  "KEYWORDS_nature_plants =
    [''tree'', ''flower'', ''plant'', ''garden'', ''park'', ''botanical'', ''greenhouse'',
     ''rose'', ''tulip'', ''daisy'', ''sunflower'', ''lily'', ''orchid'', ''lotus'',
     ''cherry blossom'', ''sakura'', ''lavender'', ''wildflower'', ''bouquet'', ''bloom'',
     ''blossom'', ''petal'', ''leaf'', ''leaves'', ''foliage'', ''fern'', ''moss'', ''ivy'',
     ''vine'', ''bamboo'', ''palm'', ''oak'', ''pine'', ''maple'', ''birch'', ''willow'',
     ''redwood'', ''sequoia'', ''eucalyptus'', ''grass'', ''lawn'', ''meadow'', ''field'',
     ''pasture'', ''farmland'', ''countryside'', ''bush'', ''shrub'', ''hedge'', ''cactus'',
     ''succulent'', ''mushroom'', ''fungus'']"

definition KEYWORDS_nature_related :: "string list" where
  "KEYWORDS_nature_related =
    [''outdoor'', ''outside'', ''wilderness'', ''wild'', ''natural'', ''environment'', ''eco'',
     ''hiking'', ''hike'', ''trail'', ''trek'', ''camping'', ''camp'', ''backpacking'',
     ''flora'', ''greenery'', ''vegetation'', ''habitat'', ''ecosystem'', ''conservation'',
     ''national park'', ''reserve'', ''sanctuary'', ''arboretum'']"

definition KEYWORDS_person_people :: "string list" where
  "KEYWORDS_person_people =
    [''person'', ''people'', ''human'', ''face'', ''portrait'', ''selfie'', ''headshot'',
     ''profile'', ''man'', ''woman'', ''boy'', ''girl'', ''child'', ''children'', ''kid'',
     ''kids'', ''baby'', ''infant'', ''toddler'', ''teen'', ''teenager'', ''adult'', ''elder'',
     ''senior'', ''guy'', ''gal'', ''dude'', ''gentleman'', ''lady'', ''sir'', ''madam'',
     ''mr'', ''mrs'', ''ms'', ''miss'']"

definition KEYWORDS_person_relationships :: "string list" where
  "KEYWORDS_person_relationships =
    [''family'', ''friend'', ''friends'', ''bestie'', ''bff'', ''buddy'', ''pal'', ''mate'',
     ''couple'', ''pair'', ''duo'', ''trio'', ''group'', ''squad'', ''gang'', ''crew'',
     ''team'', ''mom'', ''mother'', ''mama'', ''mum'', ''mommy'', ''dad'', ''father'',
     ''papa'', ''daddy'', ''parent'', ''parents'', ''son'', ''daughter'', ''brother'',
     ''sister'', ''sibling'', ''grandma'', ''grandmother'', ''grandpa'', ''grandfather'',
     ''grandparent'', ''aunt'', ''uncle'', ''cousin'', ''nephew'', ''niece'', ''husband'',
     ''wife'', ''spouse'', ''boyfriend'', ''girlfriend'', ''partner'', ''fiance'', ''fiancee'']"

definition KEYWORDS_person_events :: "string list" where
  "KEYWORDS_person_events =
    [''wedding'', ''birthday'', ''party'', ''celebration'', ''graduation'', ''ceremony'',
     ''anniversary'', ''reunion'', ''gathering'', ''meetup'', ''hangout'', ''get together'',
     ''christmas'', ''thanksgiving'', ''easter'', ''halloween'', ''new year'', ''diwali'',
     ''eid'', ''hanukkah'', ''festival'', ''carnival'', ''prom'', ''homecoming'', ''shower'',
     ''reception'', ''engagement'', ''proposal'', ''baptism'', ''communion'', ''bar mitzvah'']"

definition KEYWORDS_person_names :: "string list" where
  "KEYWORDS_person_names =
    [''john'', ''james'', ''jimmy'', ''jim'', ''michael'', ''mike'', ''david'', ''dave'',
     ''robert'', ''rob'', ''bob'', ''bobby'', ''william'', ''will'', ''bill'', ''billy'',
     ''richard'', ''rick'', ''dick'', ''joseph'', ''joe'', ''joey'', ''thomas'', ''tom'',
     ''tommy'', ''charles'', ''charlie'', ''christopher'', ''chris'', ''daniel'', ''dan'',
     ''danny'', ''matthew'', ''matt'', ''anthony'', ''tony'', ''mark'', ''donald'', ''don'',
     ''donny'', ''steven'', ''steve'', ''paul'', ''andrew'', ''andy'', ''drew'', ''joshua'',
     ''josh'', ''kenneth'', ''ken'', ''kenny'', ''kevin'', ''kev'', ''brian'', ''george'',
     ''timothy'', ''tim'', ''timmy'', ''ronald'', ''ron'', ''ronny'', ''edward'', ''ed'',
     ''eddie'', ''ted'', ''teddy'', ''jason'', ''jay'', ''jeffrey'', ''jeff'', ''ryan'',
     ''jacob'', ''jake'', ''gary'', ''nicholas'', ''nick'', ''nicky'', ''eric'', ''jonathan'',
     ''jon'', ''johnny'', ''stephen'', ''larry'', ''justin'', ''scott'', ''scotty'',
     ''brandon'', ''benjamin'', ''ben'', ''benny'', ''samuel'', ''sam'', ''sammy'',
     ''raymond'', ''ray'', ''gregory'', ''greg'', ''frank'', ''frankie'', ''alexander'',
     ''alex'', ''patrick'', ''pat'', ''paddy'', ''jack'', ''jackie'', ''dennis'', ''denny'',
     ''jerry'', ''mary'', ''patricia'', ''pat'', ''patty'', ''trish'', ''jennifer'', ''jen'',
     ''jenny'', ''linda'', ''elizabeth'', ''liz'', ''beth'', ''lizzy'', ''barbara'', ''barb'',
     ''barbie'', ''susan'', ''sue'', ''suzy'', ''jessica'', ''jess'', ''jessie'', ''sarah'',
     ''sara'', ''karen'', ''lisa'', ''nancy'', ''betty'', ''margaret'', ''maggie'', ''meg'',
     ''peggy'', ''sandra'', ''sandy'', ''ashley'', ''ash'', ''kimberly'', ''kim'', ''kimmy'',
     ''emily'', ''em'', ''emma'', ''donna'', ''michelle'', ''shelly'', ''micky'', ''dorothy'',
     ''dot'', ''dottie'', ''carol'', ''amanda'', ''mandy'', ''melissa'', ''mel'', ''missy'',
     ''deborah'', ''deb'', ''debbie'', ''stephanie'', ''steph'', ''rebecca'', ''becky'',
     ''becca'', ''sharon'', ''laura'', ''cynthia'', ''cindy'', ''kathleen'', ''kathy'',
     ''kate'', ''katie'', ''amy'', ''angela'', ''angie'', ''shirley'', ''anna'', ''annie'',
     ''brenda'', ''pamela'', ''pam'', ''nicole'', ''nikki'', ''helen'', ''samantha'',
     ''katherine'', ''christine'', ''chris'', ''christy'', ''tina'', ''debra'', ''rachel'',
     ''rach'', ''carolyn'', ''janet'', ''jan'', ''catherine'', ''cathy'', ''maria'',
     ''heather'', ''diane'', ''di'', ''ruth'', ''ruthie'', ''julie'', ''jules'', ''olivia'',
     ''liv'', ''livvy'', ''joyce'', ''virginia'', ''ginny'', ''victoria'', ''vicky'', ''tori'',
     ''kelly'', ''lauren'', ''christina'', ''joan'', ''joanie'', ''evelyn'', ''eve'', ''evie'',
     ''judith'', ''judy'', ''jude'', ''megan'', ''meg'', ''meggie'', ''andrea'', ''andie'',
     ''cheryl'', ''hannah'', ''jacqueline'', ''jackie'', ''martha'', ''gloria'', ''teresa'',
     ''terry'', ''ann'', ''anne'', ''annie'', ''madison'', ''maddie'', ''frances'', ''fran'',
     ''frannie'', ''kathryn'', ''janice'', ''jean'', ''jeanie'', ''abigail'', ''abby'',
     ''gail'', ''alice'', ''sophia'', ''sophie'', ''grace'', ''gracie'', ''chloe'',
     ''isabella'', ''bella'', ''izzy'', ''natalie'', ''nat'', ''zoe'', ''zoey'', ''lily'',
     ''maya'', ''mia'', ''ava'', ''rahul'', ''amit'', ''raj'', ''raju'', ''priya'', ''anita'',
     ''sanjay'', ''vijay'', ''ravi'', ''arun'', ''suresh'', ''ramesh'', ''pooja'', ''neha'',
     ''deepa'', ''sunita'', ''rekha'', ''seema'', ''meera'', ''kavita'', ''anand'', ''kumar'',
     ''singh'', ''sharma'', ''patel'', ''gupta'', ''verma'', ''rani'', ''devi'', ''lakshmi'',
     ''gita'', ''arjun'', ''krishna'', ''shiva'', ''ganesh'', ''lakshman'', ''sita'',
     ''radha'', ''durga'', ''saraswati'', ''parvati'', ''aarav'', ''vihaan'', ''aditya'',
     ''vivaan'', ''ananya'', ''aadhya'', ''diya'', ''pihu'', ''kavya'', ''ishaan'', ''rohan'',
     ''nikhil'', ''varun'', ''karan'', ''yash'', ''aryan'', ''dev'', ''reyansh'', ''ayaan'',
     ''atharva'', ''aanya'', ''saanvi'', ''anika'', ''navya'', ''tara'', ''sara'', ''myra'',
     ''ira'', ''nisha'', ''rita'', ''praveen'', ''prakash'', ''prasad'', ''pranav'',
     ''pradeep'', ''prashant'', ''pramod'', ''prabhu'', ''preeti'', ''priti'']"

definition KEYWORDS_person_related :: "string list" where
  "KEYWORDS_person_related =
    [''selfie'', ''portrait'', ''headshot'', ''mugshot'', ''passport photo'', ''id photo'',
     ''profile pic'', ''avatar'', ''face pic'', ''groupie'', ''groufie'']"

text \<open>\<open>toLowerCase\<close> on code units below 256: \<open>A\<close>--\<open>Z\<close> and the Latin-1 capitals
  (192--222 without 215) move up by 32.\<close>

definition js_lower_char :: "char \<Rightarrow> char" where
  "js_lower_char c =
     (let n = (of_char c :: nat)
      in if (65 \<le> n \<and> n \<le> 90) \<or> (192 \<le> n \<and> n \<le> 222 \<and> n \<noteq> 215) then char_of (n + 32) else c)"

definition toLowerCase :: "string \<Rightarrow> string" where
  "toLowerCase s = map js_lower_char s"

text \<open>\<open>.replace(/[_\-\.]/g, ' ')\<close>\<close>

definition replace_separators :: "string \<Rightarrow> string" where
  "replace_separators s =
     map (\<lambda>c. if c = CHR ''_'' \<or> c = CHR ''-'' \<or> c = CHR ''.'' then CHR '' '' else c) s"

text \<open>
  The regular expression \<open>new RegExp('\\b' + escaped + '\\b', 'i')\<close>. The keyword is
  escaped, so it matches literally; with the flag \<open>i\<close> two characters match when their
  canonical (upper-case) forms agree, and canonicalisation never maps a character from 128
  upwards into ASCII. \<open>\b\<close> holds between two positions exactly one of which is a word
  character \<open>[A-Za-z0-9_]\<close>; the positions before the start and after the end of the text
  count as non-word.
\<close>

definition regex_canonicalize :: "char \<Rightarrow> char" where
  "regex_canonicalize c =
     (let n = (of_char c :: nat)
      in if (97 \<le> n \<and> n \<le> 122) \<or> (224 \<le> n \<and> n \<le> 254 \<and> n \<noteq> 247) then char_of (n - 32) else c)"

definition is_word_char :: "char \<Rightarrow> bool" where
  "is_word_char c =
     (let n = (of_char c :: nat)
      in (97 \<le> n \<and> n \<le> 122) \<or> (65 \<le> n \<and> n \<le> 90) \<or> (48 \<le> n \<and> n \<le> 57) \<or> n = 95)"

fun is_word_pos :: "char option \<Rightarrow> bool" where
  "is_word_pos None = False"
| "is_word_pos (Some c) = is_word_char c"

definition word_boundary :: "char option \<Rightarrow> char option \<Rightarrow> bool" where
  "word_boundary before after = (is_word_pos before \<noteq> is_word_pos after)"

fun head_opt :: "'a list \<Rightarrow> 'a option" where
  "head_opt [] = None"
| "head_opt (x # xs) = Some x"

text \<open>The pattern matched at the start of \<open>text\<close>, the character before it being \<open>before\<close>.\<close>

definition regex_match_at :: "string \<Rightarrow> char option \<Rightarrow> string \<Rightarrow> bool" where
  "regex_match_at keyword before text =
     (word_boundary before (head_opt text) \<and>
      map regex_canonicalize (take (length keyword) text) = map regex_canonicalize keyword \<and>
      word_boundary (if keyword = [] then before else Some (last (take (length keyword) text)))
                    (head_opt (drop (length keyword) text)))"

text \<open>\<open>regex.test(text)\<close>: the pattern matches at some position, tried from left to right.\<close>

fun regex_search :: "string \<Rightarrow> char option \<Rightarrow> string \<Rightarrow> bool" where
  "regex_search keyword before [] = regex_match_at keyword before []"
| "regex_search keyword before (c # rest) =
     (regex_match_at keyword before (c # rest) \<or> regex_search keyword (Some c) rest)"

definition regex_test :: "string \<Rightarrow> string \<Rightarrow> bool" where
  "regex_test keyword text = regex_search keyword None text"

text \<open>\<open>text.includes(s)\<close>\<close>

fun js_includes :: "string \<Rightarrow> string \<Rightarrow> bool" where
  "js_includes [] s = (s = [])"
| "js_includes (c # rest) s = (take (length s) (c # rest) = s \<or> js_includes rest s)"

text \<open>
  \<^verbatim>\<open>
  static containsKeyword(text, keywordLists, strictWordBoundary = false) {
    const lowerText = text.toLowerCase().replace(/[_\-\.]/g, ' ');
    for (const keywords of keywordLists) {
      for (const keyword of keywords) {
        const regex = new RegExp(`\\b${keyword.replace(/[.*+?^${}()|[\]\\]/g, '\\$&')}\\b`, 'i');
        if (regex.test(lowerText)) { return keyword; }
        if (!strictWordBoundary && lowerText.includes(keyword.toLowerCase())) { return keyword; }
      }
    }
    return null;
  }
  \<close>
  The result is the keyword found, or \<open>None\<close> for \<open>null\<close>.
\<close>

fun containsKeyword_inner :: "string \<Rightarrow> bool \<Rightarrow> string list \<Rightarrow> string option" where
  "containsKeyword_inner lowerText strictWordBoundary [] = None"
| "containsKeyword_inner lowerText strictWordBoundary (keyword # keywords) =
     (if regex_test keyword lowerText then Some keyword
      else if \<not> strictWordBoundary \<and> js_includes lowerText (toLowerCase keyword) then Some keyword
      else containsKeyword_inner lowerText strictWordBoundary keywords)"

fun containsKeyword_outer :: "string \<Rightarrow> bool \<Rightarrow> string list list \<Rightarrow> string option" where
  "containsKeyword_outer lowerText strictWordBoundary [] = None"
| "containsKeyword_outer lowerText strictWordBoundary (keywords # keywordLists) =
     (case containsKeyword_inner lowerText strictWordBoundary keywords of
        Some keyword \<Rightarrow> Some keyword
      | None \<Rightarrow> containsKeyword_outer lowerText strictWordBoundary keywordLists)"

definition containsKeyword :: "string \<Rightarrow> string list list \<Rightarrow> bool \<Rightarrow> string option" where
  "containsKeyword text keywordLists strictWordBoundary =
     containsKeyword_outer (replace_separators (toLowerCase text)) strictWordBoundary keywordLists"

text \<open>The truth value of a string or \<open>null\<close> in a condition: \<open>null\<close> and the empty string
  are false.\<close>

fun truthy :: "string option \<Rightarrow> bool" where
  "truthy None = False"
| "truthy (Some s) = (s \<noteq> [])"

section \<open>ClassificationEngine\<close>

datatype category = Vehicle | Pet | Nature | Person | Other

record auto_tags =
  person_id :: "string option"
  nature :: bool
  pets :: bool
  vehicle :: bool
  objects :: "string list"

text \<open>
  Bitwise operators work on 32-bit signed integers: \<open>ToInt32\<close> reduces an integer modulo
  \<open>2^32\<close> into \<open>[-2^31, 2^31)\<close>. \<open>hash << 5\<close> multiplies by \<open>2^5\<close> and reduces;
  \<open>hash & hash\<close> only reduces. \<open>(hash << 5) - hash\<close> is a difference of two 32-bit
  integers and the addition of a character code keeps it below \<open>2^34\<close> in size, so both
  are exact in doubles.
\<close>

definition ToInt32 :: "int \<Rightarrow> int" where
  "ToInt32 x = (let m = x mod 2 ^ 32 in if m \<ge> 2 ^ 31 then m - 2 ^ 32 else m)"

definition shl5 :: "int \<Rightarrow> int" where
  "shl5 hash = ToInt32 (ToInt32 hash * 2 ^ 5)"

definition hash_step :: "int \<Rightarrow> int \<Rightarrow> int" where
  "hash_step hash v = ToInt32 ((shl5 hash - hash) + v)"

text \<open>
  The arithmetic on the embedding values is in doubles, and its rounding shows:
  the product \<open>embedding[i] * 1000\<close> is the exact product rounded to a double
  (\<open>0.3 * 1000\<close> is \<open>300\<close>, the exact product of the double \<open>0.3\<close> lies just below), and
  the sum with the floor of it is rounded again once it exceeds 53 bits. The rounding of an
  exact result to a double is a parameter \<open>rnd\<close> of the functions that depend on it:
  \<open>rnd x = Some d\<close> for the double \<open>d\<close> that \<open>x\<close> rounds to, \<open>None\<close> where it overflows to
  an infinity. Nothing is assumed of \<open>rnd\<close> in the definitions.

  \<open>Math.floor\<close> of a finite double is exact, of an infinity the infinity; a sum with an
  infinity is that infinity; \<open>ToInt32\<close> of a finite number truncates it towards zero and
  reduces, of an infinity it is \<open>0\<close>.
\<close>

type_synonym rounding = "real \<Rightarrow> real option"

definition js_trunc :: "real \<Rightarrow> int" where
  "js_trunc x = (if x < 0 then \<lceil>x\<rceil> else \<lfloor>x\<rfloor>)"

text \<open>\<open>hash = ((hash << 5) - hash) + Math.floor(e * 1000); hash = hash & hash\<close>\<close>

definition embedding_step :: "rounding \<Rightarrow> int \<Rightarrow> real \<Rightarrow> int" where
  "embedding_step rnd hash e =
     (case rnd (e * 1000) of
        None \<Rightarrow> 0
      | Some product \<Rightarrow>
          (case rnd (real_of_int (shl5 hash - hash) + real_of_int \<lfloor>product\<rfloor>) of
             None \<Rightarrow> 0
           | Some rounded \<Rightarrow> ToInt32 (js_trunc rounded)))"

text \<open>
  \<^verbatim>\<open>
  static classifyByEmbedding(embedding, filename = '') {
    if (!embedding || embedding.length === 0) return 'other';
    let hash = 0;
    for (let i = 0; i < filename.length; i++) {
      hash = ((hash << 5) - hash) + filename.charCodeAt(i);
      hash = hash & hash; // Convert to 32-bit integer
    }
    for (let i = 0; i < Math.min(10, embedding.length); i++) {
      hash = ((hash << 5) - hash) + Math.floor(embedding[i] * 1000);
      hash = hash & hash;
    }
    const hashValue = Math.abs(hash) % 100;
    if (hashValue < 25) return 'nature';
    if (hashValue < 50) return 'pet';
    if (hashValue < 75) return 'person';
    return 'vehicle';
  }
  \<close>
  Each loop is a left fold of its step over the values it adds.
\<close>

definition filename_hash :: "string \<Rightarrow> int \<Rightarrow> int" where
  "filename_hash filename hash = foldl (\<lambda>h c. hash_step h (int (of_char c))) hash filename"

definition embedding_hash :: "rounding \<Rightarrow> embedding \<Rightarrow> int \<Rightarrow> int" where
  "embedding_hash rnd embedding hash =
     foldl (\<lambda>h e. embedding_step rnd h e) hash (take (min 10 (length embedding)) embedding)"

definition hashValue_of :: "rounding \<Rightarrow> embedding \<Rightarrow> string \<Rightarrow> int" where
  "hashValue_of rnd embedding filename =
     \<bar>embedding_hash rnd embedding (filename_hash filename 0)\<bar> mod 100"

definition classifyByEmbedding :: "rounding \<Rightarrow> embedding \<Rightarrow> string \<Rightarrow> category" where
  "classifyByEmbedding rnd embedding filename =
     (if length embedding = 0 then Other
      else (let hashValue = hashValue_of rnd embedding filename
            in if hashValue < 25 then Nature
               else if hashValue < 50 then Pet
               else if hashValue < 75 then Person
               else Vehicle))"

text \<open>
  A sample of the rounding, for concrete inputs: the double \<open>0.3\<close> (the double nearest
  to three tenths, \<open>5404319552844595 / 2^54\<close>), whose exact product with 1000 lies just
  below \<open>300\<close> and rounds to \<open>300\<close>; elsewhere the sample leaves the exact result, as
  the rounding of doubles does wherever that result is a double (every integer up to
  \<open>2^53\<close>, and \<open>0.25 * 1000\<close>).
\<close>

definition double_0_3 :: real where
  "double_0_3 = 5404319552844595 / 18014398509481984"

definition sample_rounding :: rounding where
  "sample_rounding x = (if x = double_0_3 * 1000 then Some 300 else Some x)"

text \<open>
  \<open>determineCategories(embedding, filename)\<close>: the four keyword checks in the order
  vehicle, pet, nature, person (the name list with strict word boundaries, consulted when
  the other person lists found nothing), then the embedding-based fallback, then
  \<open>'other'\<close>. \<open>categories.push(c)\<close> appends.
\<close>

definition vehicle_lists :: "string list list" where
  "vehicle_lists = [KEYWORDS_vehicle_types, KEYWORDS_vehicle_brands, KEYWORDS_vehicle_related]"

definition pet_lists :: "string list list" where
  "pet_lists = [KEYWORDS_pet_dogs, KEYWORDS_pet_cats, KEYWORDS_pet_others, KEYWORDS_pet_related]"

definition nature_lists :: "string list list" where
  "nature_lists = [KEYWORDS_nature_landscapes, KEYWORDS_nature_water, KEYWORDS_nature_sky,
                   KEYWORDS_nature_plants, KEYWORDS_nature_related]"

definition person_lists :: "string list list" where
  "person_lists = [KEYWORDS_person_people, KEYWORDS_person_relationships, KEYWORDS_person_events,
                   KEYWORDS_person_related]"

definition determineCategories :: "rounding \<Rightarrow> embedding \<Rightarrow> string \<Rightarrow> category list" where
  "determineCategories rnd embedding filename =
     (let categories0 = [];
          vehicleMatch = containsKeyword filename vehicle_lists False;
          categories1 = (if truthy vehicleMatch then categories0 @ [Vehicle] else categories0);
          petMatch = containsKeyword filename pet_lists False;
          categories2 = (if truthy petMatch then categories1 @ [Pet] else categories1);
          natureMatch = containsKeyword filename nature_lists False;
          categories3 = (if truthy natureMatch then categories2 @ [Nature] else categories2);
          personMatch = containsKeyword filename person_lists False;
          nameMatch = containsKeyword filename [KEYWORDS_person_names] True;
          categories4 = (if truthy personMatch then categories3 @ [Person]
                         else if truthy nameMatch then categories3 @ [Person]
                         else categories3);
          categories5 =
            (if length categories4 = 0 \<and> length embedding > 0
             then (let embeddingCategory = classifyByEmbedding rnd embedding filename
                   in if embeddingCategory \<noteq> Other then categories4 @ [embeddingCategory]
                      else categories4)
             else categories4)
      in if length categories5 = 0 then categories5 @ [Other] else categories5)"

text \<open>
  \<open>analyzeFilename(filename)\<close>: the same four checks without the name list; a person
  match sets the fixed id \<open>person_0001\<close>.
\<close>

definition empty_autoTags :: auto_tags where
  "empty_autoTags = \<lparr>person_id = None, nature = False, pets = False, vehicle = False, objects = []\<rparr>"

definition analyzeFilename :: "string \<Rightarrow> auto_tags" where
  "analyzeFilename filename =
     (let t0 = empty_autoTags;
          t1 = (if truthy (containsKeyword filename vehicle_lists False)
                then t0\<lparr>vehicle := True, objects := objects t0 @ [''vehicle'']\<rparr> else t0);
          t2 = (if truthy (containsKeyword filename pet_lists False)
                then t1\<lparr>pets := True, objects := objects t1 @ [''animal'']\<rparr> else t1);
          t3 = (if truthy (containsKeyword filename nature_lists False)
                then t2\<lparr>nature := True, objects := objects t2 @ [''outdoor'']\<rparr> else t2);
          t4 = (if truthy (containsKeyword filename person_lists False)
                then t3\<lparr>person_id := Some ''person_0001'', objects := objects t3 @ [''portrait'']\<rparr>
                else t3);
          hasMatch = (truthy (containsKeyword filename vehicle_lists False) \<or>
                      truthy (containsKeyword filename pet_lists False) \<or>
                      truthy (containsKeyword filename nature_lists False) \<or>
                      truthy (containsKeyword filename person_lists False))
      in if \<not> hasMatch then t4\<lparr>objects := objects t4 @ [''uncategorized'']\<rparr> else t4)"

text \<open>
  \<^verbatim>\<open>
  static analyzeEmbedding(embedding, filename) {
    const autoTags = { person_id: null, nature: false, pets: false, vehicle: false, objects: [] };
    const filenameHints = this.analyzeFilename(filename);
    if (!embedding || embedding.length === 0) { return filenameHints; }
    const categories = this.determineCategories(embedding, filename);
    if (categories.includes('vehicle')) { autoTags.vehicle = true; autoTags.objects.push('vehicle'); }
    if (categories.includes('pet')) { autoTags.pets = true; autoTags.objects.push('animal'); }
    if (categories.includes('nature')) { autoTags.nature = true; autoTags.objects.push('landscape', 'outdoor'); }
    if (categories.includes('person')) {
      autoTags.person_id = this.findOrCreatePersonId(embedding, filename);
      autoTags.objects.push('portrait');
    }
    if (categories.length === 0 || (categories.length === 1 && categories.includes('other'))) {
      autoTags.objects.push('uncategorized');
    }
    return autoTags;
  }
  \<close>
  The person store goes in and comes out, the rounding of doubles is passed on to
  \<open>classifyByEmbedding\<close>; a missing embedding (\<open>null\<close>, \<open>undefined\<close>) takes the same
  branch as the empty one and is not told apart from it.
\<close>

definition analyzeEmbedding ::
  "rounding \<Rightarrow> person_store \<Rightarrow> embedding \<Rightarrow> string \<Rightarrow> auto_tags \<times> person_store" where
  "analyzeEmbedding rnd store embedding filename =
     (let filenameHints = analyzeFilename filename
      in if length embedding = 0 then (filenameHints, store)
         else
          (let categories = determineCategories rnd embedding filename;
               t0 = empty_autoTags;
               t1 = (if Vehicle \<in> set categories
                     then t0\<lparr>vehicle := True, objects := objects t0 @ [''vehicle'']\<rparr> else t0);
               t2 = (if Pet \<in> set categories
                     then t1\<lparr>pets := True, objects := objects t1 @ [''animal'']\<rparr> else t1);
               t3 = (if Nature \<in> set categories
                     then t2\<lparr>nature := True, objects := objects t2 @ [''landscape'', ''outdoor'']\<rparr>
                     else t2);
               (t4, store') =
                    (if Person \<in> set categories
                     then (case findOrCreatePersonId store embedding filename of
                             (personId, store') \<Rightarrow>
                               (t3\<lparr>person_id := Some personId, objects := objects t3 @ [''portrait'']\<rparr>,
                                store'))
                     else (t3, store));
               t5 = (if length categories = 0 \<or> (length categories = 1 \<and> Other \<in> set categories)
                     then t4\<lparr>objects := objects t4 @ [''uncategorized'']\<rparr> else t4)
           in (t5, store')))"

section \<open>FanoutOrganizer: destinations\<close>

text \<open>\<open>String.prototype.trim\<close> on code units below 256: tab, line feed, vertical tab, form
  feed, carriage return, space and no-break space are removed at both ends.\<close>

definition is_js_whitespace :: "char \<Rightarrow> bool" where
  "is_js_whitespace c = (let n = (of_char c :: nat) in (9 \<le> n \<and> n \<le> 13) \<or> n = 32 \<or> n = 160)"

definition trim :: "string \<Rightarrow> string" where
  "trim s = rev (dropWhile is_js_whitespace (rev (dropWhile is_js_whitespace s)))"

text \<open>
  \<^verbatim>\<open>
  static getAllFolderPaths(autoTags, customTags = []) {
    const folders = [];
    if (autoTags.vehicle) { folders.push('vehicles'); }
    if (autoTags.pets) { folders.push('pets'); }
    if (autoTags.nature) { folders.push('nature'); }
    if (autoTags.person_id) { folders.push(`people/${autoTags.person_id}`); }
    for (const tag of customTags) {
      if (tag && tag.trim()) { folders.push(`tags/${tag.trim()}`); }
    }
    if (folders.length === 0) { folders.push('uncategorized'); }
    return folders;
  }
  static determineFolderPath(autoTags, customTags = []) {
    const folders = this.getAllFolderPaths(autoTags, customTags);
    return folders[0];
  }
  \<close>
\<close>

fun customTags_loop :: "string list \<Rightarrow> string list \<Rightarrow> string list" where
  "customTags_loop [] folders = folders"
| "customTags_loop (tag # customTags) folders =
     customTags_loop customTags
       (if tag \<noteq> [] \<and> trim tag \<noteq> [] then folders @ [''tags/'' @ trim tag] else folders)"

definition getAllFolderPaths :: "auto_tags \<Rightarrow> string list \<Rightarrow> string list" where
  "getAllFolderPaths autoTags customTags =
     (let folders0 = [];
          folders1 = (if vehicle autoTags then folders0 @ [''vehicles''] else folders0);
          folders2 = (if pets autoTags then folders1 @ [''pets''] else folders1);
          folders3 = (if nature autoTags then folders2 @ [''nature''] else folders2);
          folders4 = (case person_id autoTags of
                        Some personId \<Rightarrow>
                          (if truthy (Some personId) then folders3 @ [''people/'' @ personId]
                           else folders3)
                      | None \<Rightarrow> folders3);
          folders5 = customTags_loop customTags folders4
      in if length folders5 = 0 then folders5 @ [''uncategorized''] else folders5)"

text \<open>\<open>folders[0]\<close> is \<open>undefined\<close> (here \<open>None\<close>) on an empty array.\<close>

definition determineFolderPath :: "auto_tags \<Rightarrow> string list \<Rightarrow> string option" where
  "determineFolderPath autoTags customTags = head_opt (getAllFolderPaths autoTags customTags)"

text \<open>
  The single-destination function of \<open>imageProcessor.old.js\<close>:
  \<^verbatim>\<open>
  static determineFolderPath(autoTags, customTags = []) {
    if (autoTags.vehicle) { return 'vehicles'; }
    if (autoTags.pets) { return 'pets'; }
    if (autoTags.nature) { return 'nature'; }
    if (autoTags.person_id) { return `people/${autoTags.person_id}`; }
    if (customTags.length > 0) { return `tags/${customTags[0]}`; }
    return 'uncategorized';
  }
  \<close>
\<close>

definition determineFolderPath_old :: "auto_tags \<Rightarrow> string list \<Rightarrow> string" where
  "determineFolderPath_old autoTags customTags =
     (if vehicle autoTags then ''vehicles''
      else if pets autoTags then ''pets''
      else if nature autoTags then ''nature''
      else (case person_id autoTags of
              Some personId \<Rightarrow>
                (if truthy (Some personId) then ''people/'' @ personId
                 else (case customTags of tag # _ \<Rightarrow> ''tags/'' @ tag | [] \<Rightarrow> ''uncategorized''))
            | None \<Rightarrow> (case customTags of tag # _ \<Rightarrow> ''tags/'' @ tag | [] \<Rightarrow> ''uncategorized'')))"

section \<open>FanoutOrganizer: \<open>CollectionSync\<close>\<close>

text \<open>
  The four collections \<open>Person\<close>, \<open>Pet\<close>, \<open>Nature\<close> and \<open>Vehicle\<close> hold category
  documents; a document embeds the full records of its images. A document is identified by
  \<open>personId\<close> (Person) or \<open>category\<close> (the others), here the field \<open>key\<close>;
  \<open>metadata.imageCount\<close> is a number with default \<open>0\<close>. Time stamps
  (\<open>createdAt\<close>, \<open>updatedAt\<close>, \<open>firstSeen\<close>, \<open>lastSeen\<close>, \<open>uploadedAt\<close>) are
  not modelled, and the store itself never fails, so the \<open>catch\<close> branches are not taken.
\<close>

record image_data =
  filename :: string
  originalName :: string
  filepath :: string
  mimetype :: string
  embedding :: "real list"
  tags :: "string list"
  autoTags :: auto_tags
  organized :: bool
  organizedPaths :: "string list"

record category_doc =
  key :: string
  images :: "image_data list"
  imageCount :: int
  sampleImageUrl :: "string option"

record collections =
  Person_docs :: "category_doc list"
  Pet_docs :: "category_doc list"
  Nature_docs :: "category_doc list"
  Vehicle_docs :: "category_doc list"

record sync_results =
  addedTo :: "string list"
  errors :: "string list"

text \<open>
  \<open>Model.findOneAndUpdate({key: k}, {$push: {images: imageData}, $inc: {'metadata.imageCount': 1},
  $set: {sampleImageUrl: imageUrl}, $setOnInsert: {key: k}}, {upsert: true})\<close>:
  the first document with the key is updated; when there is none, one is inserted with
  the key and the defaults, and the update applies to it.
\<close>

fun findOneAndUpdate_push :: "string \<Rightarrow> image_data \<Rightarrow> string \<Rightarrow> category_doc list \<Rightarrow> category_doc list" where
  "findOneAndUpdate_push k imageData imageUrl [] =
     [\<lparr>key = k, images = [] @ [imageData], imageCount = 0 + 1, sampleImageUrl = Some imageUrl\<rparr>]"
| "findOneAndUpdate_push k imageData imageUrl (d # ds) =
     (if key d = k
      then d\<lparr>images := images d @ [imageData], imageCount := imageCount d + 1,
             sampleImageUrl := Some imageUrl\<rparr> # ds
      else d # findOneAndUpdate_push k imageData imageUrl ds)"

text \<open>
  \<open>addImageToCollections(imageData)\<close>: one upsert per set flag, in the order person, pet,
  nature, vehicle; when none is set, one into the \<open>Nature\<close> collection under the key
  \<open>uncategorized\<close>.
\<close>

definition addImageToCollections :: "image_data \<Rightarrow> collections \<Rightarrow> sync_results \<times> collections" where
  "addImageToCollections imageData db =
     (let imageUrl = ''/uploads/'' @ filename imageData;
          results0 = \<lparr>addedTo = [], errors = []\<rparr>;
          (results1, db1, addedToAny1) =
            (case person_id (autoTags imageData) of
               Some personId \<Rightarrow>
                 (if truthy (Some personId)
                  then (results0\<lparr>addedTo := addedTo results0 @ [''Person'']\<rparr>,
                        db\<lparr>Person_docs := findOneAndUpdate_push personId imageData imageUrl (Person_docs db)\<rparr>,
                        True)
                  else (results0, db, False))
             | None \<Rightarrow> (results0, db, False));
          (results2, db2, addedToAny2) =
            (if pets (autoTags imageData)
             then (results1\<lparr>addedTo := addedTo results1 @ [''Pet'']\<rparr>,
                   db1\<lparr>Pet_docs := findOneAndUpdate_push ''pet'' imageData imageUrl (Pet_docs db1)\<rparr>,
                   True)
             else (results1, db1, addedToAny1));
          (results3, db3, addedToAny3) =
            (if nature (autoTags imageData)
             then (results2\<lparr>addedTo := addedTo results2 @ [''Nature'']\<rparr>,
                   db2\<lparr>Nature_docs := findOneAndUpdate_push ''nature'' imageData imageUrl (Nature_docs db2)\<rparr>,
                   True)
             else (results2, db2, addedToAny2));
          (results4, db4, addedToAny4) =
            (if vehicle (autoTags imageData)
             then (results3\<lparr>addedTo := addedTo results3 @ [''Vehicle'']\<rparr>,
                   db3\<lparr>Vehicle_docs := findOneAndUpdate_push ''vehicle'' imageData imageUrl (Vehicle_docs db3)\<rparr>,
                   True)
             else (results3, db3, addedToAny3))
      in if \<not> addedToAny4
         then (results4\<lparr>addedTo := addedTo results4 @ [''Nature (uncategorized)'']\<rparr>,
               db4\<lparr>Nature_docs :=
                     findOneAndUpdate_push ''uncategorized'' imageData imageUrl (Nature_docs db4)\<rparr>)
         else (results4, db4))"

text \<open>
  \<open>Model.updateMany({}, {$pull: {images: {filename}}, $inc: {'metadata.imageCount': -1}})\<close>:
  the empty filter selects every document of the collection; in each, \<open>$pull\<close> removes all
  embedded records with the file name and \<open>$inc\<close> adds \<open>-1\<close> to the count.
  \<open>Model.deleteMany({'metadata.imageCount': {$lte: 0}})\<close> deletes the documents whose count
  is at most \<open>0\<close>.
\<close>

definition updateMany_pull :: "string \<Rightarrow> category_doc list \<Rightarrow> category_doc list" where
  "updateMany_pull fname docs =
     map (\<lambda>d. d\<lparr>images := filter (\<lambda>i. filename i \<noteq> fname) (images d),
                 imageCount := imageCount d + (- 1)\<rparr>) docs"

definition deleteMany_lte0 :: "category_doc list \<Rightarrow> category_doc list" where
  "deleteMany_lte0 docs = filter (\<lambda>d. \<not> imageCount d \<le> 0) docs"

text \<open>
  \<^verbatim>\<open>
  static async removeImageFromCollections(filename) {
    await Person.updateMany({}, { $pull: { images: { filename } }, $inc: { 'metadata.imageCount': -1 } });
    await Pet.updateMany(...); await Nature.updateMany(...); await Vehicle.updateMany(...);
    await Person.deleteMany({ 'metadata.imageCount': { $lte: 0 } });
    await Pet.deleteMany(...); await Nature.deleteMany(...); await Vehicle.deleteMany(...);
    return { success: true };
  }
  \<close>
\<close>

definition removeImageFromCollections :: "string \<Rightarrow> collections \<Rightarrow> bool \<times> collections" where
  "removeImageFromCollections fname db =
     (let db1 = db\<lparr>Person_docs := updateMany_pull fname (Person_docs db)\<rparr>;
          db2 = db1\<lparr>Pet_docs := updateMany_pull fname (Pet_docs db1)\<rparr>;
          db3 = db2\<lparr>Nature_docs := updateMany_pull fname (Nature_docs db2)\<rparr>;
          db4 = db3\<lparr>Vehicle_docs := updateMany_pull fname (Vehicle_docs db3)\<rparr>;
          db5 = db4\<lparr>Person_docs := deleteMany_lte0 (Person_docs db4)\<rparr>;
          db6 = db5\<lparr>Pet_docs := deleteMany_lte0 (Pet_docs db5)\<rparr>;
          db7 = db6\<lparr>Nature_docs := deleteMany_lte0 (Nature_docs db6)\<rparr>;
          db8 = db7\<lparr>Vehicle_docs := deleteMany_lte0 (Vehicle_docs db7)\<rparr>
      in (True, db8))"

text \<open>Queries: all documents of all collections, and the occurrences of a file name in a
  document (as \<open>findImageByFilename\<close> and \<open>getAllImages\<close> look records up).\<close>

definition all_docs :: "collections \<Rightarrow> category_doc list" where
  "all_docs db = Person_docs db @ Pet_docs db @ Nature_docs db @ Vehicle_docs db"

definition occurrences :: "string \<Rightarrow> category_doc \<Rightarrow> nat" where
  "occurrences fname d = length (filter (\<lambda>i. filename i = fname) (images d))"

definition findOne :: "string \<Rightarrow> category_doc list \<Rightarrow> category_doc option" where
  "findOne k docs = find (\<lambda>d. key d = k) docs"

text \<open>The folders of the category flags and the person id, in the order in which
  \<open>getAllFolderPaths\<close> pushes them (a closed form, used to state its result).\<close>

definition category_folders :: "auto_tags \<Rightarrow> string list" where
  "category_folders t =
     (if vehicle t then [''vehicles''] else []) @
     (if pets t then [''pets''] else []) @
     (if nature t then [''nature''] else []) @
     (case person_id t of Some p \<Rightarrow> (if p \<noteq> [] then [''people/'' @ p] else []) | None \<Rightarrow> [])"

text \<open>What a query by key sees of a collection: the number of records with a file name in
  the document with that key, and the document's \<open>imageCount\<close>; both \<open>0\<close> when there is
  no such document.\<close>

definition doc_occurrences :: "string \<Rightarrow> string \<Rightarrow> category_doc list \<Rightarrow> nat" where
  "doc_occurrences fname k docs = (case findOne k docs of None \<Rightarrow> 0 | Some d \<Rightarrow> occurrences fname d)"

definition doc_imageCount :: "string \<Rightarrow> category_doc list \<Rightarrow> int" where
  "doc_imageCount k docs = (case findOne k docs of None \<Rightarrow> 0 | Some d \<Rightarrow> imageCount d)"

text \<open>A record and stores used as concrete inputs.\<close>

definition sample_image :: "string \<Rightarrow> auto_tags \<Rightarrow> image_data" where
  "sample_image fname t =
     \<lparr>filename = fname, originalName = fname, filepath = ''uploads/'' @ fname,
      mimetype = ''image/jpeg'', embedding = [], tags = [], autoTags = t,
      organized = False, organizedPaths = []\<rparr>"

definition pet_tags :: auto_tags where
  "pet_tags = \<lparr>person_id = None, nature = False, pets = True, vehicle = False, objects = [''animal'']\<rparr>"

definition empty_db :: collections where
  "empty_db = \<lparr>Person_docs = [], Pet_docs = [], Nature_docs = [], Vehicle_docs = []\<rparr>"

text \<open>One call has grown the document with key \<open>k\<close>: one more record with the file name of
  \<open>r\<close>, and an \<open>imageCount\<close> higher by one.\<close>

definition grows :: "image_data \<Rightarrow> string \<Rightarrow> category_doc list \<Rightarrow> category_doc list \<Rightarrow> bool" where
  "grows r k before after =
     (doc_occurrences (filename r) k after = doc_occurrences (filename r) k before + 1 \<and>
      doc_imageCount k after = doc_imageCount k before + 1)"

text \<open>
  A character of a keyword that cannot occur in a match against \<open>text\<close>: no character of
  the text agrees with it under the canonicalisation of the regular expression, and its
  lower-case form is not in the text. A keyword with such a character matches neither way
  (\<open>containsKeyword_inner_skip\<close> below); the predicate serves to evaluate \<open>containsKeyword\<close>
  on a given file name.
\<close>

definition char_absent :: "string \<Rightarrow> char \<Rightarrow> bool" where
  "char_absent text c =
     (regex_canonicalize c \<notin> set (map regex_canonicalize text) \<and> js_lower_char c \<notin> set text)"

text \<open>
  The id minted for the \<open>n\<close>-th identity, \<open>person_\<close> followed by \<open>n\<close> in decimal, padded
  with zeros to four digits; the ids of a registry of \<open>n\<close> identities minted in order; and
  the number read back from a string of decimal digits.
\<close>

definition person_id_of :: "nat \<Rightarrow> string" where
  "person_id_of n = ''person_'' @ padStart 4 (CHR ''0'') (js_String n)"

definition registry_ids :: "nat \<Rightarrow> string list" where
  "registry_ids n = map person_id_of [1..<n + 1]"

definition decimal_value :: "string \<Rightarrow> nat" where
  "decimal_value s = foldl (\<lambda>a c. 10 * a + (of_char c - 48)) 0 s"

text \<open>The test of the scan: the presented signature against a stored entry.\<close>

definition matches :: "signature \<Rightarrow> string \<times> signature \<Rightarrow> bool" where
  "matches sig entry = js_gt (calculateSimilarity sig (snd entry)) (Num (85 / 100))"

text \<open>
  The collection after \<open>r\<close> has been appended to the document with key \<open>k\<close>, written
  without recursion: the documents in front of the first one with the key stay, that
  document gets \<open>r\<close> at the end of its \<open>images\<close>, a count higher by one and the sample
  URL of \<open>r\<close>, the documents behind it stay; when no document has the key, a new one with
  \<open>r\<close> alone and the count \<open>1\<close> stands at the end.
\<close>

definition with_appended :: "string \<Rightarrow> image_data \<Rightarrow> category_doc list \<Rightarrow> category_doc list" where
  "with_appended k r docs =
     takeWhile (\<lambda>d. key d \<noteq> k) docs @
     (case dropWhile (\<lambda>d. key d \<noteq> k) docs of
        [] \<Rightarrow> [\<lparr>key = k, images = [r], imageCount = 1,
                 sampleImageUrl = Some (''/uploads/'' @ filename r)\<rparr>]
      | d # rest \<Rightarrow>
          d\<lparr>images := images d @ [r], imageCount := imageCount d + 1,
            sampleImageUrl := Some (''/uploads/'' @ filename r)\<rparr> # rest)"

section \<open>Verification: the signature\<close>

lemma foldl_add_sum_list: "foldl (\<lambda>a b. a + b) s xs = s + sum_list (xs :: real list)"
  by (induction xs arbitrary: s) simp_all

lemma reduce_sum_sum_list: "reduce_sum xs = sum_list xs"
  by (simp add: reduce_sum_def foldl_add_sum_list)

text \<open>The one division by zero in \<open>generateEmbeddingSignature\<close> is \<open>0 / 0\<close>: an empty
  segment has the sum \<open>0\<close>.\<close>

lemma empty_segment_sum: "length segment = 0 \<Longrightarrow> reduce_sum segment = 0"
  by (simp add: reduce_sum_def)

lemma signature_loop_map:
  "i \<le> 8 \<Longrightarrow> signature_loop e k i acc =
     acc @ map (\<lambda>j. segment_avg (slice (j * k) ((j + 1) * k) e)) [i..<8]"
proof (induction e k i acc rule: signature_loop.induct)
  case (1 e k i acc)
  show ?case
  proof (cases "i < 8")
    case True
    then have "[i..<8] = i # [i + 1..<8]" by (simp add: upt_conv_Cons)
    with True 1 show ?thesis by (subst signature_loop.simps) simp
  next
    case False
    with 1 show ?thesis by (subst signature_loop.simps) simp
  qed
qed

lemma generateEmbeddingSignature_map:
  "generateEmbeddingSignature e =
     map (\<lambda>j. segment_avg (slice (j * (length e div 8)) ((j + 1) * (length e div 8)) e)) [0..<8]"
  by (simp add: generateEmbeddingSignature_def signature_loop_map)

lemma length_generateEmbeddingSignature: "length (generateEmbeddingSignature e) = 8"
  by (simp add: generateEmbeddingSignature_map)

lemma length_slice_full:
  "end \<le> length xs \<Longrightarrow> start \<le> end \<Longrightarrow> length (slice start end xs) = end - start"
  by (simp add: slice_def)

lemma segment_in_range:
  assumes "i < 8"
  shows "(i + 1) * (length (e :: 'a list) div 8) \<le> length e"
proof -
  have "(i + 1) * (length e div 8) \<le> 8 * (length e div 8)"
    using assms by (intro mult_right_mono) simp_all
  also have "\<dots> \<le> length e" by simp
  finally show ?thesis .
qed

lemma segment_avg_mean:
  "segment \<noteq> [] \<Longrightarrow> segment_avg segment = Num (sum_list segment / real (length segment))"
  by (simp add: segment_avg_def reduce_sum_sum_list)

lemma upt_0_8: "[0..<8] = [0, 1, 2, 3, 4, 5, 6, 7]"
  by (simp add: upt_rec)

lemma replicate_8: "replicate 8 x = [x, x, x, x, x, x, x, x]"
  by (simp add: eval_nat_numeral)

lemma short_embedding_signature:
  "length e < 8 \<Longrightarrow> generateEmbeddingSignature e = replicate 8 NaN"
  unfolding generateEmbeddingSignature_map upt_0_8 replicate_8
  by (simp add: slice_def segment_avg_def reduce_sum_def)

lemma sum_list_slice:
  assumes "a + k \<le> length (e :: real list)"
  shows "sum_list (slice a (a + k) e) = (\<Sum>j<k. e ! (a + j))"
proof -
  have "sum_list (take k (drop a e)) = (\<Sum>j = 0..<length (take k (drop a e)). take k (drop a e) ! j)"
    by (rule sum_list_sum_nth)
  also have "length (take k (drop a e)) = k" using assms by simp
  also have "(\<Sum>j = 0..<k. take k (drop a e) ! j) = (\<Sum>j = 0..<k. e ! (a + j))"
    using assms by (intro sum.cong) simp_all
  finally show ?thesis by (simp add: slice_def atLeast0LessThan)
qed

lemma signature_take_eq:
  "generateEmbeddingSignature (take (8 * (length e div 8)) e) = generateEmbeddingSignature e"
proof -
  let ?k = "length e div 8"
  have l: "length (take (8 * ?k) e) div 8 = ?k" by (simp add: min_def)
  have "\<And>j. j < 8 \<Longrightarrow> slice (j * ?k) ((j + 1) * ?k) (take (8 * ?k) e)
                       = slice (j * ?k) ((j + 1) * ?k) e"
  proof -
    fix j :: nat assume j: "j < 8"
    have "(j + 1) * ?k \<le> 8 * ?k" using j by (intro mult_right_mono) simp_all
    then have "(j + 1) * ?k - j * ?k \<le> 8 * ?k - j * ?k"
      by (intro diff_le_mono)
    then show "slice (j * ?k) ((j + 1) * ?k) (take (8 * ?k) e) = slice (j * ?k) ((j + 1) * ?k) e"
      unfolding slice_def drop_take take_take by (simp only: min_absorb1)
  qed
  then show ?thesis
    unfolding generateEmbeddingSignature_map l by (intro map_cong) simp_all
qed

lemma sum_lessThan_2: "(\<Sum>j<2. f j) = f 0 + f (1::nat)" for f :: "nat \<Rightarrow> real"
  by (simp add: lessThan_Suc numeral_2_eq_2)

text \<open>
  Claim C6. For an embedding of length \<open>n \<ge> 8\<close> the signature has exactly 8 elements;
  element \<open>i\<close> is the arithmetic mean of the \<open>n div 8\<close> elements at the indices
  \<open>i * (n div 8), \<dots>, (i + 1) * (n div 8) - 1\<close>; and the elements from index
  \<open>8 * (n div 8)\<close> on have no influence: an embedding of the same length that agrees on the
  first \<open>8 * (n div 8)\<close> elements has the same signature.
\<close>

theorem signature_segment_means:
  assumes "8 \<le> length e"
  shows "length (generateEmbeddingSignature e) = 8 \<and>
         (\<forall>i<8. generateEmbeddingSignature e ! i =
            Num ((\<Sum>j<length e div 8. e ! (i * (length e div 8) + j)) / real (length e div 8))) \<and>
         (\<forall>e'. length e' = length e \<and>
               take (8 * (length e div 8)) e' = take (8 * (length e div 8)) e \<longrightarrow>
               generateEmbeddingSignature e' = generateEmbeddingSignature e)"
proof (intro conjI allI impI)
  let ?k = "length e div 8"
  have k: "1 \<le> ?k" using assms by (simp add: Suc_le_eq div_greater_zero_iff)
  show "length (generateEmbeddingSignature e) = 8"
    by (rule length_generateEmbeddingSignature)
  fix i :: nat assume i: "i < 8"
  have r: "i * ?k + ?k \<le> length e" using segment_in_range [OF i, of e] by simp
  have len: "length (slice (i * ?k) ((i + 1) * ?k) e) = ?k"
    using r by (simp add: length_slice_full)
  have ne: "slice (i * ?k) ((i + 1) * ?k) e \<noteq> []"
    using len k by auto
  have s: "sum_list (slice (i * ?k) ((i + 1) * ?k) e) = (\<Sum>j<?k. e ! (i * ?k + j))"
    using sum_list_slice [OF r] by (simp add: add.commute)
  have "generateEmbeddingSignature e ! i = segment_avg (slice (i * ?k) ((i + 1) * ?k) e)"
    using i by (simp add: generateEmbeddingSignature_map del: upt_Suc)
  then show "generateEmbeddingSignature e ! i = Num ((\<Sum>j<?k. e ! (i * ?k + j)) / real ?k)"
    using segment_avg_mean [OF ne] len s by simp
next
  fix e' :: "real list"
  assume a: "length e' = length e \<and>
             take (8 * (length e div 8)) e' = take (8 * (length e div 8)) e"
  have "generateEmbeddingSignature e' = generateEmbeddingSignature (take (8 * (length e' div 8)) e')"
    by (rule signature_take_eq [symmetric])
  also have "\<dots> = generateEmbeddingSignature (take (8 * (length e div 8)) e)" using a by simp
  also have "\<dots> = generateEmbeddingSignature e" by (rule signature_take_eq)
  finally show "generateEmbeddingSignature e' = generateEmbeddingSignature e" .
qed

theorem signature_segment_means_witness:
  "length (generateEmbeddingSignature [1, 2, 3, 4, 5, 6, 7, 8, 9, 10, 11, 12, 13, 14, 15, 16, 99]) = 8 \<and>
   generateEmbeddingSignature [1, 2, 3, 4, 5, 6, 7, 8, 9, 10, 11, 12, 13, 14, 15, 16, 99] ! 3 = Num (15 / 2) \<and>
   generateEmbeddingSignature [1, 2, 3, 4, 5, 6, 7, 8, 9, 10, 11, 12, 13, 14, 15, 16, 0]
     = generateEmbeddingSignature [1, 2, 3, 4, 5, 6, 7, 8, 9, 10, 11, 12, 13, 14, 15, 16, 99]"
proof -
  let ?e = "[1, 2, 3, 4, 5, 6, 7, 8, 9, 10, 11, 12, 13, 14, 15, 16, 99] :: real list"
  have h: "8 \<le> length ?e" by simp
  have k: "length ?e div 8 = 2" by simp
  note t = signature_segment_means [OF h]
  have 1: "length (generateEmbeddingSignature ?e) = 8"
    using t by (rule conjunct1)
  have "generateEmbeddingSignature ?e ! 3 =
          Num ((\<Sum>j<length ?e div 8. ?e ! (3 * (length ?e div 8) + j)) / real (length ?e div 8))"
    using t [THEN conjunct2, THEN conjunct1] by simp
  then have 2: "generateEmbeddingSignature ?e ! 3 = Num (15 / 2)"
    unfolding k sum_lessThan_2 by simp
  have 3: "generateEmbeddingSignature [1, 2, 3, 4, 5, 6, 7, 8, 9, 10, 11, 12, 13, 14, 15, 16, 0]
             = generateEmbeddingSignature ?e"
    by (rule t [THEN conjunct2, THEN conjunct2, rule_format]) simp
  show ?thesis using 1 2 3 by (intro conjI)
qed

text \<open>
  Claim C7. An embedding shorter than 8 is to be rejected (or padded) instead of yielding a
  signature of \<open>NaN\<close>. The code has no such guard: the segment size is \<open>0\<close>, every segment
  is empty, and each of the 8 elements is \<open>0 / 0\<close>. Shown at the empty embedding (which
  \<open>server.js\<close> passes as \<open>existingImage.embedding || []\<close>) and at one of length 3.
\<close>

theorem short_embedding_yields_NaN_signature:
  "generateEmbeddingSignature [] = [NaN, NaN, NaN, NaN, NaN, NaN, NaN, NaN] \<and>
   generateEmbeddingSignature [1, 2, 3] = [NaN, NaN, NaN, NaN, NaN, NaN, NaN, NaN]"
  using short_embedding_signature [of "[]"] short_embedding_signature [of "[1, 2, 3]"]
  by (simp add: replicate_8)

section \<open>Verification: destinations\<close>

lemma trim_Nil: "trim [] = []"
  by (simp add: trim_def)

lemma customTags_loop_closed:
  "customTags_loop customTags folders =
     folders @ map (\<lambda>tag. ''tags/'' @ trim tag) (filter (\<lambda>tag. trim tag \<noteq> []) customTags)"
proof (induction customTags arbitrary: folders)
  case Nil
  show ?case by simp
next
  case (Cons tag customTags)
  have "(tag \<noteq> [] \<and> trim tag \<noteq> []) = (trim tag \<noteq> [])"
    using trim_Nil by auto
  then show ?case by (simp add: Cons.IH)
qed

lemma getAllFolderPaths_closed:
  "getAllFolderPaths t customTags =
     (let folders = category_folders t @
                    map (\<lambda>tag. ''tags/'' @ trim tag) (filter (\<lambda>tag. trim tag \<noteq> []) customTags)
      in if folders = [] then [''uncategorized''] else folders)"
  by (simp add: getAllFolderPaths_def category_folders_def customTags_loop_closed Let_def
           split: option.split)

lemma ws_space: "is_js_whitespace CHR '' ''" "\<not> is_js_whitespace CHR ''x''" "\<not> is_js_whitespace CHR ''a''"
  by (simp_all add: is_js_whitespace_def)

lemma trim_examples: "trim '' '' = []" "trim '' x'' = ''x''" "trim '' a '' = ''a''" "trim ''b'' = ''b''" "trim [] = []"
  by (simp_all add: trim_def ws_space is_js_whitespace_def)

lemma trim_examples2: "trim '' a'' = ''a''" "trim ''holiday'' = ''holiday''"
  by (simp_all add: trim_def is_js_whitespace_def)

lemma dropWhile_snoc_keep:
  "\<not> P x \<Longrightarrow> \<exists>ys. dropWhile P (xs @ [x]) = ys @ [x]"
  by (induction xs) auto

lemma trim_hd_last:
  assumes "trim s \<noteq> []"
  shows "\<not> is_js_whitespace (hd (trim s)) \<and> \<not> is_js_whitespace (last (trim s))"
proof -
  define d where "d = dropWhile is_js_whitespace s"
  define e where "e = dropWhile is_js_whitespace (rev d)"
  have t: "trim s = rev e" by (simp add: trim_def d_def e_def)
  with assms have ene: "e \<noteq> []" by simp
  then have "\<not> is_js_whitespace (hd e)" unfolding e_def by (rule hd_dropWhile)
  then have l: "\<not> is_js_whitespace (last (trim s))" using ene t by (simp add: last_rev)
  have dne: "d \<noteq> []"
  proof
    assume "d = []"
    then have "e = []" by (simp add: e_def)
    with ene show False by simp
  qed
  then obtain x xs where d: "d = x # xs" by (cases d) auto
  have "\<not> is_js_whitespace (hd d)" using dne unfolding d_def by (rule hd_dropWhile)
  then have nx: "\<not> is_js_whitespace x" using d by simp
  have "rev d = rev xs @ [x]" using d by simp
  then obtain ys where "e = ys @ [x]"
    using dropWhile_snoc_keep [of is_js_whitespace x "rev xs"] nx unfolding e_def by auto
  then have "trim s = x # rev ys" using t by simp
  with nx l show ?thesis by simp
qed

lemma dropWhile_id: "xs = [] \<or> \<not> P (hd xs) \<Longrightarrow> dropWhile P xs = xs"
  by (cases xs) auto

lemma trim_idem: "trim (trim s) = trim s"
proof (cases "trim s = []")
  case True
  then show ?thesis using trim_Nil by simp
next
  case False
  let ?x = "trim s"
  from trim_hd_last [OF False] have h: "\<not> is_js_whitespace (hd ?x)" and l: "\<not> is_js_whitespace (last ?x)"
    by simp_all
  have 1: "dropWhile is_js_whitespace ?x = ?x" using h by (intro dropWhile_id) simp
  have "hd (rev ?x) = last ?x" using False by (simp add: hd_rev)
  then have 2: "dropWhile is_js_whitespace (rev ?x) = rev ?x" using l by (intro dropWhile_id) simp
  have "trim ?x = rev (dropWhile is_js_whitespace (rev (dropWhile is_js_whitespace ?x)))"
    by (simp add: trim_def)
  then show ?thesis using 1 2 by simp
qed

lemma hd_getAllFolderPaths_tags:
  "head_opt (map (\<lambda>tag. ''tags/'' @ trim tag) (filter (\<lambda>tag. trim tag \<noteq> []) customTags)) =
     map_option (\<lambda>tag. ''tags/'' @ trim tag) (find (\<lambda>tag. trim tag \<noteq> []) customTags)"
  by (induction customTags) auto

text \<open>
  Claim C5, as amended. \<open>getAllFolderPaths\<close> returns, in this order, \<open>vehicles\<close>,
  \<open>pets\<close>, \<open>nature\<close>, \<open>people/<personId>\<close> for a person id that is neither \<open>null\<close>
  nor empty, and \<open>tags/<trimmed tag>\<close> for each custom tag whose trimmed form is not empty,
  in input order; when that list is empty the result is the single destination
  \<open>uncategorized\<close>. The result is never empty.
\<close>

theorem getAllFolderPaths_destinations:
  "getAllFolderPaths t customTags =
     (let folders =
        (if vehicle t then [''vehicles''] else []) @
        (if pets t then [''pets''] else []) @
        (if nature t then [''nature''] else []) @
        (case person_id t of Some p \<Rightarrow> (if p \<noteq> [] then [''people/'' @ p] else []) | None \<Rightarrow> []) @
        map (\<lambda>tag. ''tags/'' @ trim tag) (filter (\<lambda>tag. trim tag \<noteq> []) customTags)
      in if folders = [] then [''uncategorized''] else folders) \<and>
   getAllFolderPaths t customTags \<noteq> []"
  by (simp add: getAllFolderPaths_closed category_folders_def Let_def)

theorem getAllFolderPaths_destinations_witness:
  "getAllFolderPaths \<lparr>person_id = Some ''person_0001'', nature = False, pets = True, vehicle = True, objects = []\<rparr>
      ['' a '', '''', ''b''] = [''vehicles'', ''pets'', ''people/person_0001'', ''tags/a'', ''tags/b'']"
  using getAllFolderPaths_destinations
    [of "\<lparr>person_id = Some ''person_0001'', nature = False, pets = True, vehicle = True, objects = []\<rparr>"
        "['' a '', '''', ''b'']"]
  by (simp add: trim_examples)

text \<open>
  Claim C5 as stated speaks of every non-empty custom tag and of the path \<open>tags/<tag>\<close>.
  A tag of one space is not empty and yields no destination; a tag with a leading space
  yields the path of its trimmed form; an empty, non-null person id yields no destination.
\<close>

theorem destinations_counterexample:
  "'' '' \<noteq> [] \<and> getAllFolderPaths empty_autoTags ['' ''] = [''uncategorized''] \<and>
   getAllFolderPaths empty_autoTags ['' x''] = [''tags/x''] \<and>
   getAllFolderPaths (empty_autoTags\<lparr>person_id := Some []\<rparr>) [] = [''uncategorized'']"
  by (simp add: getAllFolderPaths_closed category_folders_def empty_autoTags_def trim_examples)

text \<open>
  Claim C10, as amended. The single path of \<open>imageProcessor.old.js\<close> is the first
  destination of the current implementation exactly when a category flag or a non-empty
  person id is set, or there is no custom tag, or the first custom tag is non-empty and
  has no white space at either end.
\<close>

theorem determineFolderPath_old_vs_new:
  "(determineFolderPath t customTags = Some (determineFolderPath_old t customTags)) =
     (vehicle t \<or> pets t \<or> nature t \<or> truthy (person_id t) \<or>
      (case customTags of [] \<Rightarrow> True | tag # rest \<Rightarrow> tag \<noteq> [] \<and> trim tag = tag))"
proof (cases "vehicle t \<or> pets t \<or> nature t \<or> truthy (person_id t)")
  case True
  then show ?thesis
    by (auto simp add: determineFolderPath_def determineFolderPath_old_def getAllFolderPaths_def
          customTags_loop_closed split: option.splits)
next
  case False
  then have cf: "category_folders t = []"
    by (auto simp add: category_folders_def split: option.splits)
  have new: "determineFolderPath t customTags =
      (case find (\<lambda>tag. trim tag \<noteq> []) customTags of
         None \<Rightarrow> Some ''uncategorized'' | Some tag \<Rightarrow> Some (''tags/'' @ trim tag))"
  proof (cases "find (\<lambda>tag. trim tag \<noteq> []) customTags")
    case None
    then have "filter (\<lambda>tag. trim tag \<noteq> []) customTags = []"
      by (auto simp add: find_None_iff filter_empty_conv)
    with cf None show ?thesis
      by (simp add: determineFolderPath_def getAllFolderPaths_closed)
  next
    case (Some a)
    then have ne: "filter (\<lambda>tag. trim tag \<noteq> []) customTags \<noteq> []"
      by (auto simp add: find_Some_iff filter_empty_conv)
    with cf Some show ?thesis
      using hd_getAllFolderPaths_tags [of customTags]
      by (simp add: determineFolderPath_def getAllFolderPaths_closed)
  qed
  have old: "determineFolderPath_old t customTags =
      (case customTags of tag # _ \<Rightarrow> ''tags/'' @ tag | [] \<Rightarrow> ''uncategorized'')"
    using False by (auto simp add: determineFolderPath_old_def split: option.splits)
  show ?thesis
  proof (cases customTags)
    case Nil
    with new old False show ?thesis by simp
  next
    case (Cons tag rest)
    show ?thesis
    proof (cases "trim tag \<noteq> []")
      case True
      with new old False Cons show ?thesis by auto
    next
      case nt: False
      show ?thesis
      proof (cases "find (\<lambda>tag. trim tag \<noteq> []) rest")
        case None
        with new old False Cons nt show ?thesis by auto
      next
        case (Some t')
        then have t': "trim t' \<noteq> []" by (auto simp add: find_Some_iff)
        have "trim t' \<noteq> tag"
        proof
          assume a: "trim t' = tag"
          then have "trim tag = tag" using trim_idem [of t'] by simp
          with nt a t' show False by simp
        qed
        with new old False Cons nt Some show ?thesis by auto
      qed
    qed
  qed
qed

theorem determineFolderPath_old_vs_new_witness:
  "determineFolderPath empty_autoTags [''holiday'', '' x''] = Some (determineFolderPath_old empty_autoTags [''holiday'', '' x''])"
  using determineFolderPath_old_vs_new [of empty_autoTags "[''holiday'', '' x'']"]
  by (simp add: trim_examples2 empty_autoTags_def)

text \<open>
  Claim C10 as stated (for every custom-tag list) fails where the first custom tag is empty
  or has white space at an end: the old function uses it as it is, the current one skips or
  trims it.
\<close>

theorem determineFolderPath_counterexample:
  "determineFolderPath empty_autoTags [''''] = Some ''uncategorized'' \<and>
   determineFolderPath_old empty_autoTags [''''] = ''tags/'' \<and>
   determineFolderPath empty_autoTags ['' a''] = Some ''tags/a'' \<and>
   determineFolderPath_old empty_autoTags ['' a''] = ''tags/ a''"
  by (simp add: determineFolderPath_def determineFolderPath_old_def getAllFolderPaths_closed
        category_folders_def empty_autoTags_def trim_examples trim_examples2)

section \<open>Verification: synchronisation of the collections\<close>

lemma findOneAndUpdate_push_occurrences:
  "doc_occurrences (filename r) k (findOneAndUpdate_push k r url docs)
     = doc_occurrences (filename r) k docs + 1"
  by (induction docs) (simp_all add: doc_occurrences_def findOne_def occurrences_def)

lemma findOneAndUpdate_push_imageCount:
  "doc_imageCount k (findOneAndUpdate_push k r url docs) = doc_imageCount k docs + 1"
  by (induction docs) (simp_all add: doc_imageCount_def findOne_def)

lemma findOneAndUpdate_push_other:
  "k' \<noteq> k \<Longrightarrow> findOne k' (findOneAndUpdate_push k r url docs) = findOne k' docs"
  by (induction docs) (simp_all add: findOne_def)

lemma grows_push: "grows r k docs (findOneAndUpdate_push k r url docs)"
  by (simp add: grows_def findOneAndUpdate_push_occurrences findOneAndUpdate_push_imageCount)

lemma add_Person_docs:
  "Person_docs (snd (addImageToCollections r db)) =
     (case person_id (autoTags r) of
        Some p \<Rightarrow> if p \<noteq> [] then findOneAndUpdate_push p r (''/uploads/'' @ filename r) (Person_docs db)
                  else Person_docs db
      | None \<Rightarrow> Person_docs db)"
  by (simp add: addImageToCollections_def Let_def split: option.split)

lemma add_Pet_docs:
  "Pet_docs (snd (addImageToCollections r db)) =
     (if pets (autoTags r) then findOneAndUpdate_push ''pet'' r (''/uploads/'' @ filename r) (Pet_docs db)
      else Pet_docs db)"
  by (simp add: addImageToCollections_def Let_def split: option.split)

lemma add_Vehicle_docs:
  "Vehicle_docs (snd (addImageToCollections r db)) =
     (if vehicle (autoTags r) then findOneAndUpdate_push ''vehicle'' r (''/uploads/'' @ filename r) (Vehicle_docs db)
      else Vehicle_docs db)"
  by (simp add: addImageToCollections_def Let_def split: option.split)

lemma add_Nature_docs:
  "Nature_docs (snd (addImageToCollections r db)) =
     (if nature (autoTags r) then findOneAndUpdate_push ''nature'' r (''/uploads/'' @ filename r) (Nature_docs db)
      else if \<not> truthy (person_id (autoTags r)) \<and> \<not> pets (autoTags r) \<and> \<not> vehicle (autoTags r)
      then findOneAndUpdate_push ''uncategorized'' r (''/uploads/'' @ filename r) (Nature_docs db)
      else Nature_docs db)"
  by (simp add: addImageToCollections_def Let_def split: option.split)

lemma add_sample_empty:
  "snd (addImageToCollections (sample_image ''a.jpg'' pet_tags) empty_db) =
     empty_db\<lparr>Pet_docs := [\<lparr>key = ''pet'', images = [sample_image ''a.jpg'' pet_tags], imageCount = 1,
                              sampleImageUrl = Some ''/uploads/a.jpg''\<rparr>]\<rparr>"
  by (simp add: addImageToCollections_def Let_def sample_image_def pet_tags_def empty_db_def)

lemma add_sample_again:
  "snd (addImageToCollections (sample_image ''a.jpg'' pet_tags)
         (empty_db\<lparr>Pet_docs := [\<lparr>key = ''pet'', images = [sample_image ''a.jpg'' pet_tags],
                                   imageCount = 1, sampleImageUrl = Some ''/uploads/a.jpg''\<rparr>]\<rparr>)) =
     empty_db\<lparr>Pet_docs := [\<lparr>key = ''pet'',
                              images = [sample_image ''a.jpg'' pet_tags, sample_image ''a.jpg'' pet_tags],
                              imageCount = 2, sampleImageUrl = Some ''/uploads/a.jpg''\<rparr>]\<rparr>"
  by (simp add: addImageToCollections_def Let_def sample_image_def pet_tags_def empty_db_def)

lemma sample_filename: "filename (sample_image fname t) = fname"
  by (simp add: sample_image_def)

lemma findOneAndUpdate_push_with_appended:
  "findOneAndUpdate_push k r (''/uploads/'' @ filename r) docs = with_appended k r docs"
  by (induction docs) (simp_all add: with_appended_def)

lemma grows_with_appended: "grows r k docs (with_appended k r docs)"
  using grows_push [of r k docs "''/uploads/'' @ filename r"]
  by (simp only: findOneAndUpdate_push_with_appended)

text \<open>
  Claim C1, as amended. \<open>addImageToCollections\<close> has no test for presence: every call
  appends the record to the \<open>images\<close> of the document of each destination (the person id,
  \<open>pet\<close>, \<open>nature\<close>, \<open>vehicle\<close>, or \<open>uncategorized\<close> in the Nature collection when
  nothing else is set), creating the document when there is none, and adds one to its
  \<open>imageCount\<close>, whether or not a record with that file name is already there; the other
  records of that document, the other documents of that collection and the collections
  that are no destination stay as they are. So each call adds one occurrence of the file
  name to each destination.
\<close>

theorem addImageToCollections_always_appends:
  "(case person_id (autoTags r) of
      Some p \<Rightarrow>
        (if p \<noteq> []
         then Person_docs (snd (addImageToCollections r db)) = with_appended p r (Person_docs db) \<and>
              grows r p (Person_docs db) (Person_docs (snd (addImageToCollections r db)))
         else Person_docs (snd (addImageToCollections r db)) = Person_docs db)
    | None \<Rightarrow> Person_docs (snd (addImageToCollections r db)) = Person_docs db) \<and>
   (if pets (autoTags r)
    then Pet_docs (snd (addImageToCollections r db)) = with_appended ''pet'' r (Pet_docs db) \<and>
         grows r ''pet'' (Pet_docs db) (Pet_docs (snd (addImageToCollections r db)))
    else Pet_docs (snd (addImageToCollections r db)) = Pet_docs db) \<and>
   (if vehicle (autoTags r)
    then Vehicle_docs (snd (addImageToCollections r db)) = with_appended ''vehicle'' r (Vehicle_docs db) \<and>
         grows r ''vehicle'' (Vehicle_docs db) (Vehicle_docs (snd (addImageToCollections r db)))
    else Vehicle_docs (snd (addImageToCollections r db)) = Vehicle_docs db) \<and>
   (if nature (autoTags r)
    then Nature_docs (snd (addImageToCollections r db)) = with_appended ''nature'' r (Nature_docs db) \<and>
         grows r ''nature'' (Nature_docs db) (Nature_docs (snd (addImageToCollections r db)))
    else if \<not> truthy (person_id (autoTags r)) \<and> \<not> pets (autoTags r) \<and> \<not> vehicle (autoTags r)
    then Nature_docs (snd (addImageToCollections r db))
           = with_appended ''uncategorized'' r (Nature_docs db) \<and>
         grows r ''uncategorized'' (Nature_docs db) (Nature_docs (snd (addImageToCollections r db)))
    else Nature_docs (snd (addImageToCollections r db)) = Nature_docs db)"
  unfolding add_Person_docs add_Pet_docs add_Vehicle_docs add_Nature_docs
    findOneAndUpdate_push_with_appended
  by (simp add: grows_with_appended split: option.split)

theorem addImageToCollections_always_appends_witness:
  "Pet_docs (snd (addImageToCollections (sample_image ''a.jpg'' pet_tags)
                    (snd (addImageToCollections (sample_image ''a.jpg'' pet_tags) empty_db)))) =
     [\<lparr>key = ''pet'',
       images = [sample_image ''a.jpg'' pet_tags, sample_image ''a.jpg'' pet_tags],
       imageCount = 2, sampleImageUrl = Some ''/uploads/a.jpg''\<rparr>] \<and>
   grows (sample_image ''a.jpg'' pet_tags) ''pet''
     (Pet_docs (snd (addImageToCollections (sample_image ''a.jpg'' pet_tags) empty_db)))
     (Pet_docs (snd (addImageToCollections (sample_image ''a.jpg'' pet_tags)
                      (snd (addImageToCollections (sample_image ''a.jpg'' pet_tags) empty_db)))))"
proof -
  let ?r = "sample_image ''a.jpg'' pet_tags"
  let ?db1 = "snd (addImageToCollections ?r empty_db)"
  have p: "pets (autoTags ?r)" by (simp add: sample_image_def pet_tags_def)
  have s: "(if pets (autoTags ?r)
         then Pet_docs (snd (addImageToCollections ?r ?db1)) = with_appended ''pet'' ?r (Pet_docs ?db1) \<and>
              grows ?r ''pet'' (Pet_docs ?db1) (Pet_docs (snd (addImageToCollections ?r ?db1)))
         else Pet_docs (snd (addImageToCollections ?r ?db1)) = Pet_docs ?db1)"
    using addImageToCollections_always_appends [of ?r ?db1]
    by (rule conjunct2 [THEN conjunct1])
  note both = s [unfolded if_P [OF p]]
  note 1 = both [THEN conjunct1] and 2 = both [THEN conjunct2]
  have w: "with_appended ''pet'' ?r (Pet_docs ?db1) =
      [\<lparr>key = ''pet'', images = [?r, ?r], imageCount = 2, sampleImageUrl = Some ''/uploads/a.jpg''\<rparr>]"
  proof -
    have "Pet_docs ?db1 =
        [\<lparr>key = ''pet'', images = [?r], imageCount = 1, sampleImageUrl = Some ''/uploads/a.jpg''\<rparr>]"
      by (simp add: add_sample_empty)
    then show ?thesis by (simp add: with_appended_def sample_filename)
  qed
  have 3: "Pet_docs (snd (addImageToCollections ?r ?db1)) =
      [\<lparr>key = ''pet'', images = [?r, ?r], imageCount = 2, sampleImageUrl = Some ''/uploads/a.jpg''\<rparr>]"
    using 1 w by (rule trans)
  show ?thesis using 3 2 by (intro conjI)
qed

text \<open>
  Claim C1 as stated: a second call with the same record leaves every destination as it is.
  Synchronising one record twice into the empty store leaves the Pet document with two
  entries of the file name and \<open>imageCount = 2\<close>.
\<close>

theorem sync_twice_duplicates:
  "(let r = sample_image ''a.jpg'' pet_tags;
        db1 = snd (addImageToCollections r empty_db);
        db2 = snd (addImageToCollections r db1)
    in doc_occurrences ''a.jpg'' ''pet'' (Pet_docs db1) = 1 \<and> doc_imageCount ''pet'' (Pet_docs db1) = 1 \<and>
       doc_occurrences ''a.jpg'' ''pet'' (Pet_docs db2) = 2 \<and> doc_imageCount ''pet'' (Pet_docs db2) = 2)"
  by (simp add: Let_def add_sample_empty add_sample_again doc_occurrences_def doc_imageCount_def
        findOne_def occurrences_def sample_filename)

lemma updateMany_pull_no_occurrence:
  "d \<in> set (updateMany_pull fname docs) \<Longrightarrow> occurrences fname d = 0"
  by (auto simp add: updateMany_pull_def occurrences_def)

lemma deleteMany_lte0_subset: "set (deleteMany_lte0 docs) \<subseteq> set docs"
  by (auto simp add: deleteMany_lte0_def)

lemma remove_docs:
  "Person_docs (snd (removeImageFromCollections fname db)) = deleteMany_lte0 (updateMany_pull fname (Person_docs db))"
  "Pet_docs (snd (removeImageFromCollections fname db)) = deleteMany_lte0 (updateMany_pull fname (Pet_docs db))"
  "Nature_docs (snd (removeImageFromCollections fname db)) = deleteMany_lte0 (updateMany_pull fname (Nature_docs db))"
  "Vehicle_docs (snd (removeImageFromCollections fname db)) = deleteMany_lte0 (updateMany_pull fname (Vehicle_docs db))"
  by (simp_all add: removeImageFromCollections_def Let_def)

lemma remove_no_occurrence:
  "d \<in> set (all_docs (snd (removeImageFromCollections fname db))) \<Longrightarrow> occurrences fname d = 0"
  using deleteMany_lte0_subset updateMany_pull_no_occurrence
  by (auto simp add: all_docs_def remove_docs; blast)

lemma remove_no_nonpositive:
  "d \<in> set (all_docs (snd (removeImageFromCollections fname db))) \<Longrightarrow> imageCount d > 0"
  by (auto simp add: all_docs_def remove_docs deleteMany_lte0_def)

text \<open>
  Claim C2. Removal is to decrement \<open>imageCount\<close> only in the documents that contained the
  file name and to leave the others unchanged. The update runs with the empty filter, so
  \<open>$inc: -1\<close> reaches every document: a Pet document holding only \<open>a.jpg\<close>, with
  \<open>imageCount = 1\<close>, is decremented to \<open>0\<close> and deleted by the removal of \<open>b.jpg\<close>,
  which it never contained. (That no occurrence of the removed name and no document with
  \<open>imageCount \<le> 0\<close> remains is \<open>remove_no_occurrence\<close> and \<open>remove_no_nonpositive\<close>.)
\<close>

theorem remove_deletes_unrelated_document:
  "(let a = sample_image ''a.jpg'' pet_tags;
        d = \<lparr>key = ''pet'', images = [a], imageCount = 1, sampleImageUrl = Some ''/uploads/a.jpg''\<rparr>;
        db = empty_db\<lparr>Pet_docs := [d]\<rparr>
    in occurrences ''b.jpg'' d = 0 \<and> occurrences ''a.jpg'' d = 1 \<and>
       removeImageFromCollections ''b.jpg'' db = (True, empty_db))"
  by (simp add: Let_def removeImageFromCollections_def updateMany_pull_def deleteMany_lte0_def
        occurrences_def sample_image_def empty_db_def)

section \<open>Verification: the identity registry\<close>

lemma scan_store_find:
  "scan_store sig store = map_option fst (find (matches sig) store)"
  by (induction store) (auto simp add: matches_def)

lemma map_set_fresh: "k \<notin> set (map fst m) \<Longrightarrow> map_set k v m = m @ [(k, v)]"
  by (induction m) auto

lemma decimal_value_snoc:
  "decimal_value (s @ [c]) = 10 * decimal_value s + (of_char c - 48)"
  by (simp add: decimal_value_def)

lemma of_char_digit_char: "d < 10 \<Longrightarrow> of_char (digit_char d) = 48 + d"
  by (simp add: digit_char_def)

lemma decimal_value_js_String: "decimal_value (js_String n) = n"
proof (induction n rule: js_String.induct)
  case (1 n)
  show ?case
  proof (cases "n < 10")
    case True
    then show ?thesis
      by (subst js_String.simps) (simp add: decimal_value_def of_char_digit_char)
  next
    case False
    then have "decimal_value (js_String n) = 10 * decimal_value (js_String (n div 10)) + (n mod 10)"
      by (subst js_String.simps) (simp add: decimal_value_snoc of_char_digit_char)
    with 1 False show ?thesis by simp
  qed
qed

lemma decimal_value_zeros: "foldl (\<lambda>a c. 10 * a + (of_char c - 48)) 0 (replicate k (CHR ''0'')) = (0::nat)"
  by (induction k) simp_all

lemma decimal_value_padStart: "decimal_value (padStart k (CHR ''0'') s) = decimal_value s"
  by (simp add: decimal_value_def padStart_def decimal_value_zeros)

lemma person_id_of_number: "decimal_value (drop 7 (person_id_of n)) = n"
  by (simp add: person_id_of_def decimal_value_padStart decimal_value_js_String)

lemma person_id_of_inj: "person_id_of m = person_id_of n \<Longrightarrow> m = n"
  by (metis person_id_of_number)

lemma person_id_of_fresh: "person_id_of (n + 1) \<notin> set (registry_ids n)"
proof
  assume "person_id_of (n + 1) \<in> set (registry_ids n)"
  then obtain k where "k \<in> set [1..<n + 1]" and "person_id_of (n + 1) = person_id_of k"
    unfolding registry_ids_def set_map by (auto simp del: upt_Suc)
  then show False using person_id_of_inj [of "n + 1" k] by simp
qed

text \<open>The empty registry, and the registry after \<open>clearPersonStore\<close>, has its ids in
  order of minting.\<close>

lemma registry_ids_clear:
  "map fst (clearPersonStore store) = registry_ids (length (clearPersonStore store))"
  by (simp add: clearPersonStore_def registry_ids_def)

lemma length_registry_ids: "length (registry_ids n) = n"
  by (simp add: registry_ids_def)

lemma registry_ids_Suc: "registry_ids (n + 1) = registry_ids n @ [person_id_of (n + 1)]"
  by (simp add: registry_ids_def)

lemma length_js_String_lt: "n < 10 ^ k \<Longrightarrow> 0 < k \<Longrightarrow> length (js_String n) \<le> k"
proof (induction n arbitrary: k rule: js_String.induct)
  case (1 n)
  show ?case
  proof (cases "n < 10")
    case True
    then show ?thesis using 1(3) by (subst js_String.simps) simp
  next
    case False
    obtain j where k: "k = Suc j" using 1(3) by (cases k) auto
    have j: "0 < j"
    proof (rule ccontr)
      assume "\<not> 0 < j"
      then have "k = 1" using k by simp
      with 1(2) False show False by simp
    qed
    have "n div 10 < 10 ^ j" using 1(2) k by (simp add: less_mult_imp_div_less mult.commute)
    then have "length (js_String (n div 10)) \<le> j" using 1(1) [OF False _ j] by simp
    then show ?thesis using False k by (subst js_String.simps) simp
  qed
qed

lemma length_person_suffix:
  "n < 10000 \<Longrightarrow> length (padStart 4 (CHR ''0'') (js_String n)) = 4"
  using length_js_String_lt [of n 4] by (simp add: padStart_def)

lemma digit_char_is_digit: "d < 10 \<Longrightarrow> digit_char d \<in> set ''0123456789''"
proof -
  assume "d < 10"
  then have "d = 0 \<or> d = 1 \<or> d = 2 \<or> d = 3 \<or> d = 4 \<or> d = 5 \<or> d = 6 \<or> d = 7 \<or> d = 8 \<or> d = 9"
    by arith
  then show ?thesis
    by (elim disjE) (simp_all add: digit_char_def char_of_eq_iff)
qed

lemma js_String_digits: "list_all (\<lambda>c. c \<in> set ''0123456789'') (js_String n)"
proof (induction n rule: js_String.induct)
  case (1 n)
  show ?case
  proof (cases "n < 10")
    case True
    then show ?thesis
      using digit_char_is_digit [of n] by (subst js_String.simps) simp
  next
    case False
    have "n mod 10 < 10" by simp
    then have "digit_char (n mod 10) \<in> set ''0123456789''" by (rule digit_char_is_digit)
    with 1 False show ?thesis by (subst js_String.simps) simp
  qed
qed

lemma person_id_of_format:
  "take 7 (person_id_of n) = ''person_'' \<and>
   list_all (\<lambda>c. c \<in> set ''0123456789'') (drop 7 (person_id_of n))"
proof -
  have z: "list_all (\<lambda>c. c \<in> set ''0123456789'') (replicate k (CHR ''0''))" for k
    by (induction k) simp_all
  show ?thesis
    using js_String_digits [of n] z [of "4 - length (js_String n)"]
    by (simp add: person_id_of_def padStart_def del: set_simps)
qed

lemma findOrCreatePersonId_find:
  "findOrCreatePersonId store e f =
     (case find (matches (generateEmbeddingSignature e)) store of
        Some entry \<Rightarrow> (fst entry, store)
      | None \<Rightarrow> (person_id_of (length store + 1),
                 map_set (person_id_of (length store + 1)) (generateEmbeddingSignature e) store))"
  by (simp add: findOrCreatePersonId_def scan_store_find person_id_of_def Let_def split: option.split)

lemma sqrt_values: "sqrt 400 = 20" "sqrt 169 = 13" "sqrt 25 = 5"
  by (rule real_sqrt_unique; simp)+

lemma digit_chars: "digit_char (Suc 0) = CHR ''1''" "digit_char 2 = CHR ''2''"
  by (simp_all add: digit_char_def char_of_eq_iff)

lemma js_String_1: "js_String (Suc 0) = ''1''"
  by (subst js_String.simps) (simp add: digit_chars)

lemma js_String_2: "js_String 2 = ''2''"
  by (subst js_String.simps) (simp add: digit_chars)

lemma replicate_3: "replicate 3 x = [x, x, x]"
  by (simp add: eval_nat_numeral)

lemma person_id_of_1: "person_id_of (Suc 0) = ''person_0001''"
  by (simp add: person_id_of_def padStart_def js_String_1 replicate_3)

lemma person_id_of_2: "person_id_of 2 = ''person_0002''"
  by (simp add: person_id_of_def padStart_def js_String_2 replicate_3)

lemma person_id_of_1_2:
  "person_id_of 1 = ''person_0001''" "person_id_of (Suc 0) = ''person_0001''"
  "person_id_of 2 = ''person_0002''" "person_id_of (Suc (Suc 0)) = ''person_0002''"
  using person_id_of_1 person_id_of_2 by (simp_all add: numeral_2_eq_2)

lemma signature_of_8:
  "generateEmbeddingSignature [a, b, c, d, e, f, g, h] = [Num a, Num b, Num c, Num d, Num e, Num f, Num g, Num h]"
  unfolding generateEmbeddingSignature_map upt_0_8
  by (simp add: slice_def segment_avg_def reduce_sum_def)

lemma similarities:
  "calculateSimilarity [Num 17, Num 10, Num 3, Num 1, Num 1, Num 0, Num 0, Num 0]
                       [Num 1, Num 0, Num 0, Num 0, Num 0, Num 0, Num 0, Num 0] = Num (85 / 100)"
  "calculateSimilarity [Num 12, Num 5, Num 0, Num 0, Num 0, Num 0, Num 0, Num 0]
                       [Num 1, Num 0, Num 0, Num 0, Num 0, Num 0, Num 0, Num 0] = Num (12 / 13)"
  "calculateSimilarity [Num 12, Num (- 5), Num 0, Num 0, Num 0, Num 0, Num 0, Num 0]
                       [Num 1, Num 0, Num 0, Num 0, Num 0, Num 0, Num 0, Num 0] = Num (12 / 13)"
  "calculateSimilarity [Num 12, Num 5, Num 0, Num 0, Num 0, Num 0, Num 0, Num 0]
                       [Num 12, Num (- 5), Num 0, Num 0, Num 0, Num 0, Num 0, Num 0] = Num (119 / 169)"
  by (simp_all add: calculateSimilarity_def sqrt_values)

text \<open>
  Claim C3, as amended. On a registry whose ids are \<open>person_0001\<close>, \<open>person_0002\<close>, \<dots> in
  the order of minting (the empty registry is one, and every call keeps it so),
  \<open>findOrCreatePersonId\<close> returns the id of the first stored identity, in insertion order,
  whose stored signature has cosine similarity strictly above \<open>0.85\<close> with the signature of
  the embedding, and leaves the registry as it is; when there is none it mints
  \<open>person_<N+1>\<close> for the registry size \<open>N\<close>, in decimal with zeros in front up to four
  digits (exactly four below 10000), and appends it with the signature. The similarity that
  decides is the one with stored signatures, not the one between two uploads.
\<close>

theorem findOrCreatePersonId_first_match:
  assumes "map fst store = registry_ids (length store)"
  shows "(case find (matches (generateEmbeddingSignature e)) store of
            Some entry \<Rightarrow> findOrCreatePersonId store e f = (fst entry, store)
          | None \<Rightarrow> findOrCreatePersonId store e f =
                      (person_id_of (length store + 1),
                       store @ [(person_id_of (length store + 1), generateEmbeddingSignature e)])) \<and>
         map fst (snd (findOrCreatePersonId store e f))
           = registry_ids (length (snd (findOrCreatePersonId store e f))) \<and>
         take 7 (person_id_of (length store + 1)) = ''person_'' \<and>
         list_all (\<lambda>c. c \<in> set ''0123456789'') (drop 7 (person_id_of (length store + 1))) \<and>
         decimal_value (drop 7 (person_id_of (length store + 1))) = length store + 1 \<and>
         (length store + 1 < 10000 \<longrightarrow> length (person_id_of (length store + 1)) = 11)"
proof -
  have fresh: "person_id_of (length store + 1) \<notin> set (map fst store)"
    using assms person_id_of_fresh [of "length store"] by simp
  have ms: "map_set (person_id_of (length store + 1)) (generateEmbeddingSignature e) store
              = store @ [(person_id_of (length store + 1), generateEmbeddingSignature e)]"
    using fresh by (rule map_set_fresh)
  have 1: "(case find (matches (generateEmbeddingSignature e)) store of
            Some entry \<Rightarrow> findOrCreatePersonId store e f = (fst entry, store)
          | None \<Rightarrow> findOrCreatePersonId store e f =
                      (person_id_of (length store + 1),
                       store @ [(person_id_of (length store + 1), generateEmbeddingSignature e)]))"
    using ms by (simp add: findOrCreatePersonId_find split: option.split)
  have 2: "map fst (snd (findOrCreatePersonId store e f))
           = registry_ids (length (snd (findOrCreatePersonId store e f)))"
    using assms ms registry_ids_Suc [of "length store"]
    by (simp add: findOrCreatePersonId_find split: option.split)
  have 3: "length store + 1 < 10000 \<longrightarrow> length (person_id_of (length store + 1)) = 11"
    by (simp add: person_id_of_def length_person_suffix)
  show ?thesis
    using 1 2 3 person_id_of_number [of "length store + 1"] person_id_of_format [of "length store + 1"]
    by (intro conjI) (simp_all del: set_simps)
qed

theorem findOrCreatePersonId_first_match_witness:
  "map fst [(''person_0001'', generateEmbeddingSignature [1, 0, 0, 0, 0, 0, 0, 0])] = registry_ids 1 \<and>
   findOrCreatePersonId [(''person_0001'', generateEmbeddingSignature [1, 0, 0, 0, 0, 0, 0, 0])]
       [17, 10, 3, 1, 1, 0, 0, 0] ''b.jpg'' =
     (''person_0002'',
      [(''person_0001'', generateEmbeddingSignature [1, 0, 0, 0, 0, 0, 0, 0]),
       (''person_0002'', generateEmbeddingSignature [17, 10, 3, 1, 1, 0, 0, 0])]) \<and>
   findOrCreatePersonId [(''person_0001'', generateEmbeddingSignature [1, 0, 0, 0, 0, 0, 0, 0])]
       [12, 5, 0, 0, 0, 0, 0, 0] ''c.jpg'' =
     (''person_0001'', [(''person_0001'', generateEmbeddingSignature [1, 0, 0, 0, 0, 0, 0, 0])])"
proof -
  have wf: "map fst [(''person_0001'', generateEmbeddingSignature [1, 0, 0, 0, 0, 0, 0, 0])]
              = registry_ids (length [(''person_0001'', generateEmbeddingSignature [1, 0, 0, 0, 0, 0, 0, 0])])"
    by (simp add: registry_ids_def person_id_of_1_2)
  show ?thesis
    using wf
      findOrCreatePersonId_first_match [OF wf, of "[17, 10, 3, 1, 1, 0, 0, 0]" "''b.jpg''"]
      findOrCreatePersonId_first_match [OF wf, of "[12, 5, 0, 0, 0, 0, 0, 0]" "''c.jpg''"]
    by (simp add: signature_of_8 similarities matches_def person_id_of_1_2)
qed

text \<open>
  Claim C3 as stated. Two embeddings with similarity exactly \<open>0.85\<close> resolve to different
  ids (the comparison is strict); two embeddings with similarity \<open>119/169 < 0.85\<close> resolve
  to the same id, each being within the threshold of the identity stored first.
\<close>

theorem identity_resolution_counterexample:
  "calculateSimilarity (generateEmbeddingSignature [17, 10, 3, 1, 1, 0, 0, 0])
                       (generateEmbeddingSignature [1, 0, 0, 0, 0, 0, 0, 0]) = Num (85 / 100) \<and>
   findOrCreatePersonId [] [1, 0, 0, 0, 0, 0, 0, 0] ''a.jpg'' =
     (''person_0001'', [(''person_0001'', generateEmbeddingSignature [1, 0, 0, 0, 0, 0, 0, 0])]) \<and>
   fst (findOrCreatePersonId [(''person_0001'', generateEmbeddingSignature [1, 0, 0, 0, 0, 0, 0, 0])]
          [17, 10, 3, 1, 1, 0, 0, 0] ''b.jpg'') = ''person_0002'' \<and>
   calculateSimilarity (generateEmbeddingSignature [12, 5, 0, 0, 0, 0, 0, 0])
                       (generateEmbeddingSignature [12, - 5, 0, 0, 0, 0, 0, 0]) = Num (119 / 169) \<and>
   (119 / 169 :: real) < 85 / 100 \<and>
   fst (findOrCreatePersonId [(''person_0001'', generateEmbeddingSignature [1, 0, 0, 0, 0, 0, 0, 0])]
          [12, 5, 0, 0, 0, 0, 0, 0] ''c.jpg'') = ''person_0001'' \<and>
   fst (findOrCreatePersonId [(''person_0001'', generateEmbeddingSignature [1, 0, 0, 0, 0, 0, 0, 0])]
          [12, - 5, 0, 0, 0, 0, 0, 0] ''d.jpg'') = ''person_0001''"
  by (simp add: signature_of_8 similarities findOrCreatePersonId_find matches_def person_id_of_1_2)

section \<open>Verification: classification\<close>

lemma classifyByEmbedding_cases:
  "e \<noteq> [] \<Longrightarrow> classifyByEmbedding rnd e f \<in> {Nature, Pet, Person, Vehicle}"
  by (simp add: classifyByEmbedding_def Let_def)

lemma classifyByEmbedding_not_Other: "e \<noteq> [] \<Longrightarrow> classifyByEmbedding rnd e f \<noteq> Other"
  using classifyByEmbedding_cases [of e rnd f] by auto

lemma determineCategories_closed:
  "determineCategories rnd e f =
     (let base = (if truthy (containsKeyword f vehicle_lists False) then [Vehicle] else []) @
                 (if truthy (containsKeyword f pet_lists False) then [Pet] else []) @
                 (if truthy (containsKeyword f nature_lists False) then [Nature] else []) @
                 (if truthy (containsKeyword f person_lists False) \<or>
                     truthy (containsKeyword f [KEYWORDS_person_names] True) then [Person] else [])
      in if base \<noteq> [] then base
         else if e \<noteq> [] then [classifyByEmbedding rnd e f] else [Other])"
  using classifyByEmbedding_not_Other [of e rnd f]
  by (simp add: determineCategories_def Let_def)

lemma determineCategories_nonempty_embedding:
  assumes "e \<noteq> []"
  shows "determineCategories rnd e f \<noteq> [] \<and> Other \<notin> set (determineCategories rnd e f)"
  using classifyByEmbedding_not_Other [OF assms, of rnd f] assms
  by (simp add: determineCategories_closed Let_def)

lemma analyzeFilename_objects:
  "objects (analyzeFilename f) \<noteq> [] \<and>
   (''uncategorized'' \<in> set (objects (analyzeFilename f)) \<longleftrightarrow>
      \<not> vehicle (analyzeFilename f) \<and> \<not> pets (analyzeFilename f) \<and> \<not> nature (analyzeFilename f) \<and>
      person_id (analyzeFilename f) = None) \<and>
   (vehicle (analyzeFilename f) \<longleftrightarrow> ''vehicle'' \<in> set (objects (analyzeFilename f))) \<and>
   (pets (analyzeFilename f) \<longleftrightarrow> ''animal'' \<in> set (objects (analyzeFilename f))) \<and>
   (nature (analyzeFilename f) \<longleftrightarrow> ''outdoor'' \<in> set (objects (analyzeFilename f))) \<and>
   (person_id (analyzeFilename f) \<noteq> None \<longleftrightarrow> ''portrait'' \<in> set (objects (analyzeFilename f)))"
  by (simp add: analyzeFilename_def Let_def empty_autoTags_def)

lemma analyzeEmbedding_empty: "analyzeEmbedding rnd store [] f = (analyzeFilename f, store)"
  by (simp add: analyzeEmbedding_def)

lemma analyzeEmbedding_nonempty:
  assumes "e \<noteq> []"
  shows "fst (analyzeEmbedding rnd store e f) =
     \<lparr>person_id = (if Person \<in> set (determineCategories rnd e f)
                    then Some (fst (findOrCreatePersonId store e f)) else None),
      nature = (Nature \<in> set (determineCategories rnd e f)),
      pets = (Pet \<in> set (determineCategories rnd e f)),
      vehicle = (Vehicle \<in> set (determineCategories rnd e f)),
      objects = (if Vehicle \<in> set (determineCategories rnd e f) then [''vehicle''] else []) @
                (if Pet \<in> set (determineCategories rnd e f) then [''animal''] else []) @
                (if Nature \<in> set (determineCategories rnd e f) then [''landscape'', ''outdoor''] else []) @
                (if Person \<in> set (determineCategories rnd e f) then [''portrait''] else [])\<rparr>"
proof -
  define C where "C = determineCategories rnd e f"
  obtain p s where fp: "findOrCreatePersonId store e f = (p, s)" by (cases "findOrCreatePersonId store e f")
  have ne: "C \<noteq> []" and no: "Other \<notin> set C"
    using determineCategories_nonempty_embedding [OF assms, of rnd f] by (simp_all add: C_def)
  have l: "(length C = 0 \<or> (length C = 1 \<and> Other \<in> set C)) = False"
    using ne no by simp
  have le: "(length e = 0) = False" using assms by simp
  show ?thesis
    unfolding analyzeEmbedding_def Let_def empty_autoTags_def C_def [symmetric] fp l le
    by (cases "Vehicle \<in> set C"; cases "Pet \<in> set C"; cases "Nature \<in> set C"; cases "Person \<in> set C")
       simp_all
qed

lemma js_lower_char_lower:
  "js_lower_char CHR ''a'' = CHR ''a''"
  "js_lower_char CHR ''b'' = CHR ''b''"
  "js_lower_char CHR ''c'' = CHR ''c''"
  "js_lower_char CHR ''d'' = CHR ''d''"
  "js_lower_char CHR ''e'' = CHR ''e''"
  "js_lower_char CHR ''f'' = CHR ''f''"
  "js_lower_char CHR ''g'' = CHR ''g''"
  "js_lower_char CHR ''h'' = CHR ''h''"
  "js_lower_char CHR ''i'' = CHR ''i''"
  "js_lower_char CHR ''j'' = CHR ''j''"
  "js_lower_char CHR ''k'' = CHR ''k''"
  "js_lower_char CHR ''l'' = CHR ''l''"
  "js_lower_char CHR ''m'' = CHR ''m''"
  "js_lower_char CHR ''n'' = CHR ''n''"
  "js_lower_char CHR ''o'' = CHR ''o''"
  "js_lower_char CHR ''p'' = CHR ''p''"
  "js_lower_char CHR ''q'' = CHR ''q''"
  "js_lower_char CHR ''r'' = CHR ''r''"
  "js_lower_char CHR ''s'' = CHR ''s''"
  "js_lower_char CHR ''t'' = CHR ''t''"
  "js_lower_char CHR ''u'' = CHR ''u''"
  "js_lower_char CHR ''v'' = CHR ''v''"
  "js_lower_char CHR ''w'' = CHR ''w''"
  "js_lower_char CHR ''x'' = CHR ''x''"
  "js_lower_char CHR ''y'' = CHR ''y''"
  "js_lower_char CHR ''z'' = CHR ''z''"
  "js_lower_char CHR '' '' = CHR '' ''"
  by (simp_all add: js_lower_char_def)

lemma js_lower_char_sep:
  "js_lower_char CHR ''_'' = CHR ''_''" "js_lower_char CHR ''.'' = CHR ''.''" "js_lower_char CHR ''-'' = CHR ''-''"
  by (simp_all add: js_lower_char_def)

lemma regex_canonicalize_lower:
  "regex_canonicalize CHR ''a'' = CHR ''A''"
  "regex_canonicalize CHR ''b'' = CHR ''B''"
  "regex_canonicalize CHR ''c'' = CHR ''C''"
  "regex_canonicalize CHR ''d'' = CHR ''D''"
  "regex_canonicalize CHR ''e'' = CHR ''E''"
  "regex_canonicalize CHR ''f'' = CHR ''F''"
  "regex_canonicalize CHR ''g'' = CHR ''G''"
  "regex_canonicalize CHR ''h'' = CHR ''H''"
  "regex_canonicalize CHR ''i'' = CHR ''I''"
  "regex_canonicalize CHR ''j'' = CHR ''J''"
  "regex_canonicalize CHR ''k'' = CHR ''K''"
  "regex_canonicalize CHR ''l'' = CHR ''L''"
  "regex_canonicalize CHR ''m'' = CHR ''M''"
  "regex_canonicalize CHR ''n'' = CHR ''N''"
  "regex_canonicalize CHR ''o'' = CHR ''O''"
  "regex_canonicalize CHR ''p'' = CHR ''P''"
  "regex_canonicalize CHR ''q'' = CHR ''Q''"
  "regex_canonicalize CHR ''r'' = CHR ''R''"
  "regex_canonicalize CHR ''s'' = CHR ''S''"
  "regex_canonicalize CHR ''t'' = CHR ''T''"
  "regex_canonicalize CHR ''u'' = CHR ''U''"
  "regex_canonicalize CHR ''v'' = CHR ''V''"
  "regex_canonicalize CHR ''w'' = CHR ''W''"
  "regex_canonicalize CHR ''x'' = CHR ''X''"
  "regex_canonicalize CHR ''y'' = CHR ''Y''"
  "regex_canonicalize CHR ''z'' = CHR ''Z''"
  "regex_canonicalize CHR '' '' = CHR '' ''"
  by (simp_all add: regex_canonicalize_def char_of_eq_iff)

lemma is_word_char_lower:
  "is_word_char CHR ''a'' = True"
  "is_word_char CHR ''b'' = True"
  "is_word_char CHR ''c'' = True"
  "is_word_char CHR ''d'' = True"
  "is_word_char CHR ''e'' = True"
  "is_word_char CHR ''f'' = True"
  "is_word_char CHR ''g'' = True"
  "is_word_char CHR ''h'' = True"
  "is_word_char CHR ''i'' = True"
  "is_word_char CHR ''j'' = True"
  "is_word_char CHR ''k'' = True"
  "is_word_char CHR ''l'' = True"
  "is_word_char CHR ''m'' = True"
  "is_word_char CHR ''n'' = True"
  "is_word_char CHR ''o'' = True"
  "is_word_char CHR ''p'' = True"
  "is_word_char CHR ''q'' = True"
  "is_word_char CHR ''r'' = True"
  "is_word_char CHR ''s'' = True"
  "is_word_char CHR ''t'' = True"
  "is_word_char CHR ''u'' = True"
  "is_word_char CHR ''v'' = True"
  "is_word_char CHR ''w'' = True"
  "is_word_char CHR ''x'' = True"
  "is_word_char CHR ''y'' = True"
  "is_word_char CHR ''z'' = True"
  "is_word_char CHR '' '' = False"
  by (simp_all add: is_word_char_def)



lemma regex_search_canon_subset:
  "regex_search kw b tx \<Longrightarrow>
     set (map regex_canonicalize kw) \<subseteq> set (map regex_canonicalize tx)"
proof (induction tx arbitrary: b)
  case Nil
  then show ?case by (auto simp add: regex_match_at_def)
next
  case (Cons c rest)
  from Cons.prems have "regex_match_at kw b (c # rest) \<or> regex_search kw (Some c) rest" by simp
  then show ?case
  proof
    assume "regex_match_at kw b (c # rest)"
    then have "map regex_canonicalize (take (length kw) (c # rest)) = map regex_canonicalize kw"
      by (simp add: regex_match_at_def)
    then have "set (map regex_canonicalize kw) = regex_canonicalize ` set (take (length kw) (c # rest))"
      by (metis set_map)
    also have "\<dots> \<subseteq> regex_canonicalize ` set (c # rest)"
      by (intro image_mono set_take_subset)
    finally show ?thesis by simp
  next
    assume "regex_search kw (Some c) rest"
    then have "set (map regex_canonicalize kw) \<subseteq> set (map regex_canonicalize rest)"
      by (rule Cons.IH)
    then show ?thesis by auto
  qed
qed

lemma js_includes_subset: "js_includes tx s \<Longrightarrow> set s \<subseteq> set tx"
proof (induction tx)
  case Nil
  then show ?case by simp
next
  case (Cons c rest)
  from Cons.prems have "take (length s) (c # rest) = s \<or> js_includes rest s" by simp
  then show ?case
  proof
    assume "take (length s) (c # rest) = s"
    then have "set s = set (take (length s) (c # rest))" by simp
    also have "\<dots> \<subseteq> set (c # rest)" by (rule set_take_subset)
    finally show ?thesis .
  next
    assume "js_includes rest s"
    then have "set s \<subseteq> set rest" by (rule Cons.IH)
    then show ?thesis by auto
  qed
qed

lemma char_absent_no_match:
  assumes "list_ex (char_absent tx) kw"
  shows "\<not> regex_test kw tx" and "\<not> js_includes tx (toLowerCase kw)"
proof -
  from assms obtain c where c: "c \<in> set kw" and a: "char_absent tx c"
    by (auto simp add: list_ex_iff)
  show "\<not> regex_test kw tx"
  proof
    assume "regex_test kw tx"
    then have "set (map regex_canonicalize kw) \<subseteq> set (map regex_canonicalize tx)"
      unfolding regex_test_def by (rule regex_search_canon_subset)
    with c have "regex_canonicalize c \<in> set (map regex_canonicalize tx)" by auto
    with a show False by (simp add: char_absent_def)
  qed
  show "\<not> js_includes tx (toLowerCase kw)"
  proof
    assume "js_includes tx (toLowerCase kw)"
    then have "set (toLowerCase kw) \<subseteq> set tx" by (rule js_includes_subset)
    with c have "js_lower_char c \<in> set tx" by (auto simp add: toLowerCase_def)
    with a show False by (simp add: char_absent_def)
  qed
qed

lemma containsKeyword_inner_skip:
  "list_ex (char_absent tx) kw \<Longrightarrow>
     containsKeyword_inner tx strict (kw # kws) = containsKeyword_inner tx strict kws"
  using char_absent_no_match [of tx kw] by simp

lemma containsKeyword_inner_step:
  "\<not> list_ex (char_absent tx) kw \<Longrightarrow>
     containsKeyword_inner tx strict (kw # kws) =
       (if regex_test kw tx then Some kw
        else if \<not> strict \<and> js_includes tx (toLowerCase kw) then Some kw
        else containsKeyword_inner tx strict kws)"
  by simp

lemma absent_mb:
  "char_absent ''mercedes benz jpg'' CHR ''a'' = True"
  "char_absent ''mercedes benz jpg'' CHR ''b'' = False"
  "char_absent ''mercedes benz jpg'' CHR ''c'' = False"
  "char_absent ''mercedes benz jpg'' CHR ''d'' = False"
  "char_absent ''mercedes benz jpg'' CHR ''e'' = False"
  "char_absent ''mercedes benz jpg'' CHR ''f'' = True"
  "char_absent ''mercedes benz jpg'' CHR ''g'' = False"
  "char_absent ''mercedes benz jpg'' CHR ''h'' = True"
  "char_absent ''mercedes benz jpg'' CHR ''i'' = True"
  "char_absent ''mercedes benz jpg'' CHR ''j'' = False"
  "char_absent ''mercedes benz jpg'' CHR ''k'' = True"
  "char_absent ''mercedes benz jpg'' CHR ''l'' = True"
  "char_absent ''mercedes benz jpg'' CHR ''m'' = False"
  "char_absent ''mercedes benz jpg'' CHR ''n'' = False"
  "char_absent ''mercedes benz jpg'' CHR ''o'' = True"
  "char_absent ''mercedes benz jpg'' CHR ''p'' = False"
  "char_absent ''mercedes benz jpg'' CHR ''q'' = True"
  "char_absent ''mercedes benz jpg'' CHR ''r'' = False"
  "char_absent ''mercedes benz jpg'' CHR ''s'' = False"
  "char_absent ''mercedes benz jpg'' CHR ''t'' = True"
  "char_absent ''mercedes benz jpg'' CHR ''u'' = True"
  "char_absent ''mercedes benz jpg'' CHR ''v'' = True"
  "char_absent ''mercedes benz jpg'' CHR ''w'' = True"
  "char_absent ''mercedes benz jpg'' CHR ''x'' = True"
  "char_absent ''mercedes benz jpg'' CHR ''y'' = True"
  "char_absent ''mercedes benz jpg'' CHR ''z'' = False"
  "char_absent ''mercedes benz jpg'' CHR '' '' = False"
  by (simp_all add: char_absent_def regex_canonicalize_lower js_lower_char_lower)


lemma absent_qqq:
  "char_absent ''qqq jpg'' CHR ''a'' = True"
  "char_absent ''qqq jpg'' CHR ''b'' = True"
  "char_absent ''qqq jpg'' CHR ''c'' = True"
  "char_absent ''qqq jpg'' CHR ''d'' = True"
  "char_absent ''qqq jpg'' CHR ''e'' = True"
  "char_absent ''qqq jpg'' CHR ''f'' = True"
  "char_absent ''qqq jpg'' CHR ''g'' = False"
  "char_absent ''qqq jpg'' CHR ''h'' = True"
  "char_absent ''qqq jpg'' CHR ''i'' = True"
  "char_absent ''qqq jpg'' CHR ''j'' = False"
  "char_absent ''qqq jpg'' CHR ''k'' = True"
  "char_absent ''qqq jpg'' CHR ''l'' = True"
  "char_absent ''qqq jpg'' CHR ''m'' = True"
  "char_absent ''qqq jpg'' CHR ''n'' = True"
  "char_absent ''qqq jpg'' CHR ''o'' = True"
  "char_absent ''qqq jpg'' CHR ''p'' = False"
  "char_absent ''qqq jpg'' CHR ''q'' = False"
  "char_absent ''qqq jpg'' CHR ''r'' = True"
  "char_absent ''qqq jpg'' CHR ''s'' = True"
  "char_absent ''qqq jpg'' CHR ''t'' = True"
  "char_absent ''qqq jpg'' CHR ''u'' = True"
  "char_absent ''qqq jpg'' CHR ''v'' = True"
  "char_absent ''qqq jpg'' CHR ''w'' = True"
  "char_absent ''qqq jpg'' CHR ''x'' = True"
  "char_absent ''qqq jpg'' CHR ''y'' = True"
  "char_absent ''qqq jpg'' CHR ''z'' = True"
  "char_absent ''qqq jpg'' CHR '' '' = False"
  by (simp_all add: char_absent_def regex_canonicalize_lower js_lower_char_lower)

lemma normalize_qqq: "replace_separators (toLowerCase ''qqq.jpg'') = ''qqq jpg''"
  by (simp add: replace_separators_def toLowerCase_def js_lower_char_lower js_lower_char_sep)

lemma normalize_mb: "replace_separators (toLowerCase ''mercedes_benz.jpg'') = ''mercedes benz jpg''"
  by (simp add: replace_separators_def toLowerCase_def js_lower_char_lower js_lower_char_sep)

lemmas keyword_eval =
  containsKeyword_inner_skip containsKeyword_inner_step
  regex_test_def regex_match_at_def word_boundary_def is_word_char_lower regex_canonicalize_lower
  js_lower_char_lower toLowerCase_def

lemma qqq_vehicle: "containsKeyword ''qqq.jpg'' vehicle_lists False = None"
  unfolding containsKeyword_def normalize_qqq vehicle_lists_def
    KEYWORDS_vehicle_types_def KEYWORDS_vehicle_brands_def KEYWORDS_vehicle_related_def
  by (simp add: keyword_eval absent_qqq del: containsKeyword_inner.simps(2))

lemma qqq_pet: "containsKeyword ''qqq.jpg'' pet_lists False = None"
  unfolding containsKeyword_def normalize_qqq pet_lists_def
    KEYWORDS_pet_dogs_def KEYWORDS_pet_cats_def KEYWORDS_pet_others_def KEYWORDS_pet_related_def
  by (simp add: keyword_eval absent_qqq del: containsKeyword_inner.simps(2))

lemma qqq_nature: "containsKeyword ''qqq.jpg'' nature_lists False = None"
  unfolding containsKeyword_def normalize_qqq nature_lists_def
    KEYWORDS_nature_landscapes_def KEYWORDS_nature_water_def KEYWORDS_nature_sky_def
    KEYWORDS_nature_plants_def KEYWORDS_nature_related_def
  by (simp add: keyword_eval absent_qqq del: containsKeyword_inner.simps(2))

lemma qqq_person: "containsKeyword ''qqq.jpg'' person_lists False = None"
  unfolding containsKeyword_def normalize_qqq person_lists_def
    KEYWORDS_person_people_def KEYWORDS_person_relationships_def KEYWORDS_person_events_def
    KEYWORDS_person_related_def
  by (simp add: keyword_eval absent_qqq del: containsKeyword_inner.simps(2))

lemma qqq_names: "containsKeyword ''qqq.jpg'' [KEYWORDS_person_names] True = None"
  unfolding containsKeyword_def normalize_qqq KEYWORDS_person_names_def
  by (simp add: keyword_eval absent_qqq del: containsKeyword_inner.simps(2))

lemma mb_vehicle: "containsKeyword ''mercedes_benz.jpg'' vehicle_lists False = Some ''mercedes''"
  unfolding containsKeyword_def normalize_mb vehicle_lists_def
    KEYWORDS_vehicle_types_def KEYWORDS_vehicle_brands_def KEYWORDS_vehicle_related_def
  by (simp add: keyword_eval absent_mb del: containsKeyword_inner.simps(2))

lemma mb_pet: "containsKeyword ''mercedes_benz.jpg'' pet_lists False = None"
  unfolding containsKeyword_def normalize_mb pet_lists_def
    KEYWORDS_pet_dogs_def KEYWORDS_pet_cats_def KEYWORDS_pet_others_def KEYWORDS_pet_related_def
  by (simp add: keyword_eval absent_mb del: containsKeyword_inner.simps(2))

lemma mb_nature: "containsKeyword ''mercedes_benz.jpg'' nature_lists False = None"
  unfolding containsKeyword_def normalize_mb nature_lists_def
    KEYWORDS_nature_landscapes_def KEYWORDS_nature_water_def KEYWORDS_nature_sky_def
    KEYWORDS_nature_plants_def KEYWORDS_nature_related_def
  by (simp add: keyword_eval absent_mb del: containsKeyword_inner.simps(2))

lemma mb_person: "containsKeyword ''mercedes_benz.jpg'' person_lists False = None"
  unfolding containsKeyword_def normalize_mb person_lists_def
    KEYWORDS_person_people_def KEYWORDS_person_relationships_def KEYWORDS_person_events_def
    KEYWORDS_person_related_def
  by (simp add: keyword_eval absent_mb del: containsKeyword_inner.simps(2))

lemma mb_names: "containsKeyword ''mercedes_benz.jpg'' [KEYWORDS_person_names] True = None"
  unfolding containsKeyword_def normalize_mb KEYWORDS_person_names_def
  by (simp add: keyword_eval absent_mb del: containsKeyword_inner.simps(2))

lemma mb_names_loose: "containsKeyword ''mercedes_benz.jpg'' [KEYWORDS_person_names] False = Some ''ed''"
  unfolding containsKeyword_def normalize_mb KEYWORDS_person_names_def
  by (simp add: keyword_eval absent_mb del: containsKeyword_inner.simps(2))

lemma ToInt32_range: "- (2 ^ 31) \<le> ToInt32 x \<and> ToInt32 x < 2 ^ 31"
proof -
  have "0 \<le> x mod 2 ^ 32" and "x mod 2 ^ 32 < 2 ^ 32" by simp_all
  then show ?thesis by (auto simp add: ToInt32_def Let_def)
qed

lemma ToInt32_mod: "ToInt32 x mod 2 ^ 32 = x mod 2 ^ 32"
proof (cases "x mod 2 ^ 32 \<ge> 2 ^ 31")
  case True
  then have "ToInt32 x = x mod 2 ^ 32 - 2 ^ 32" by (simp add: ToInt32_def Let_def)
  then have "ToInt32 x mod 2 ^ 32 = (x mod 2 ^ 32 - 2 ^ 32) mod 2 ^ 32" by simp
  also have "\<dots> = (x mod 2 ^ 32) mod 2 ^ 32" by (rule minus_mod_self2)
  finally show ?thesis by simp
next
  case False
  then show ?thesis by (simp add: ToInt32_def Let_def)
qed

lemma hash_step_range: "- (2 ^ 31) \<le> hash_step h v \<and> hash_step h v < 2 ^ 31"
  unfolding hash_step_def by (rule ToInt32_range)

lemma embedding_step_range:
  "- (2 ^ 31) \<le> embedding_step rnd h e \<and> embedding_step rnd h e < 2 ^ 31"
  using ToInt32_range by (simp add: embedding_step_def split: option.split)

lemma foldl_range:
  assumes "\<And>h x. lo \<le> step h x \<and> step h x < (hi :: int)"
    and "lo \<le> h \<and> h < hi"
  shows "lo \<le> foldl step h xs \<and> foldl step h xs < hi"
  using assms(2)
proof (induction xs arbitrary: h)
  case Nil
  then show ?case by simp
next
  case (Cons x xs)
  show ?case using Cons.IH [OF assms(1) [of h x]] by simp
qed

lemma filename_hash_range: "- (2 ^ 31) \<le> filename_hash f 0 \<and> filename_hash f 0 < 2 ^ 31"
  unfolding filename_hash_def
proof (rule foldl_range [where step = "\<lambda>h c. hash_step h (int (of_char c))"])
  show "- (2 ^ 31) \<le> hash_step h (int (of_char x)) \<and> hash_step h (int (of_char x)) < 2 ^ 31" for h x
    by (rule hash_step_range)
  show "- (2 ^ 31) \<le> (0::int) \<and> (0::int) < 2 ^ 31" by simp
qed

lemma hash_range:
  "- (2 ^ 31) \<le> embedding_hash rnd e (filename_hash f 0) \<and>
   embedding_hash rnd e (filename_hash f 0) < 2 ^ 31"
  unfolding embedding_hash_def
proof (rule foldl_range [where step = "\<lambda>h x. embedding_step rnd h x"])
  show "- (2 ^ 31) \<le> embedding_step rnd h x \<and> embedding_step rnd h x < 2 ^ 31" for h x
    by (rule embedding_step_range)
  show "- (2 ^ 31) \<le> filename_hash f 0 \<and> filename_hash f 0 < 2 ^ 31"
    by (rule filename_hash_range)
qed

text \<open>The hash is a polynomial in 31, reduced to 32 bits: \<open>(hash << 5) - hash\<close> is
  \<open>31 * hash\<close> modulo \<open>2^32\<close>.\<close>

lemma poly_step_cong:
  "h mod m = a mod m \<Longrightarrow> (31 * h + v) mod m = (31 * a + v) mod (m :: int)"
  by (metis mod_add_left_eq mod_mult_right_eq)

lemma diff_add_cong:
  "a mod m = b mod m \<Longrightarrow> (a - h + v) mod m = (b - h + v) mod (m :: int)"
  by (metis mod_add_left_eq mod_diff_left_eq)

lemma shl5_mod: "shl5 h mod 2 ^ 32 = (h * 2 ^ 5) mod 2 ^ 32"
proof -
  have "shl5 h mod 2 ^ 32 = (ToInt32 h * 2 ^ 5) mod 2 ^ 32"
    unfolding shl5_def by (rule ToInt32_mod)
  also have "\<dots> = ((ToInt32 h mod 2 ^ 32) * 2 ^ 5) mod 2 ^ 32"
    by (rule mod_mult_left_eq [symmetric])
  also have "\<dots> = ((h mod 2 ^ 32) * 2 ^ 5) mod 2 ^ 32"
    by (simp only: ToInt32_mod)
  also have "\<dots> = (h * 2 ^ 5) mod 2 ^ 32"
    by (rule mod_mult_left_eq)
  finally show ?thesis .
qed

lemma hash_step_mod: "hash_step h v mod 2 ^ 32 = (31 * h + v) mod 2 ^ 32"
proof -
  have "hash_step h v mod 2 ^ 32 = (shl5 h - h + v) mod 2 ^ 32"
    unfolding hash_step_def by (rule ToInt32_mod)
  also have "\<dots> = (h * 2 ^ 5 - h + v) mod 2 ^ 32"
    using shl5_mod by (rule diff_add_cong)
  also have "h * 2 ^ 5 - h + v = 31 * h + v" by simp
  finally show ?thesis .
qed

lemma hash_step_cong:
  "h mod 2 ^ 32 = a mod 2 ^ 32 \<Longrightarrow> hash_step h v mod 2 ^ 32 = (31 * a + v) mod 2 ^ 32"
  using hash_step_mod [of h v] poly_step_cong [of h "2 ^ 32" a v] by (rule trans)

lemma foldl_hash_step_poly:
  "h mod 2 ^ 32 = a mod 2 ^ 32 \<Longrightarrow>
     foldl (\<lambda>h x. hash_step h (g x)) h xs mod 2 ^ 32 = foldl (\<lambda>a v. 31 * a + v) a (map g xs) mod 2 ^ 32"
proof (induction xs arbitrary: h a)
  case Nil
  then show ?case by simp
next
  case (Cons x xs)
  show ?case using Cons.IH [OF hash_step_cong [OF Cons.prems, of "g x"]] by simp
qed

lemma filename_hash_poly:
  "filename_hash f 0 mod 2 ^ 32 = foldl (\<lambda>a v. 31 * a + v) 0 (map (\<lambda>c. int (of_char c)) f) mod 2 ^ 32"
  unfolding filename_hash_def by (rule foldl_hash_step_poly) simp

text \<open>Where the product rounds to a finite double and the sum is exact, the step on an
  embedding value is the integer step on the floor of the rounded product.\<close>

lemma js_trunc_of_int: "js_trunc (real_of_int n) = n"
  by (simp add: js_trunc_def)

lemma embedding_step_exact:
  assumes "rnd (e * 1000) = Some p"
    and "rnd (real_of_int (shl5 h - h + \<lfloor>p\<rfloor>)) = Some (real_of_int (shl5 h - h + \<lfloor>p\<rfloor>))"
  shows "embedding_step rnd h e = hash_step h \<lfloor>p\<rfloor>"
proof -
  show ?thesis
    unfolding embedding_step_def hash_step_def assms(1) option.case of_int_add [symmetric] assms(2)
      js_trunc_of_int
    by (rule refl)
qed

lemma shl5_range: "- (2 ^ 31) \<le> shl5 h \<and> shl5 h < 2 ^ 31"
  unfolding shl5_def by (rule ToInt32_range)

lemma embedding_step_exact_small:
  assumes ex: "\<forall>n::int. \<bar>n\<bar> \<le> 2 ^ 53 \<longrightarrow> rnd (real_of_int n) = Some (real_of_int n)"
    and p: "rnd (e * 1000) = Some p" and small: "\<bar>\<lfloor>p\<rfloor>\<bar> \<le> 2 ^ 52"
    and h: "- (2 ^ 31) \<le> h \<and> h < 2 ^ 31"
  shows "embedding_step rnd h e = hash_step h \<lfloor>p\<rfloor>"
proof -
  define q where "q = \<lfloor>p\<rfloor>"
  have "\<bar>q\<bar> \<le> 2 ^ 52" using small by (simp only: q_def)
  then have "\<bar>shl5 h - h + q\<bar> \<le> 2 ^ 53"
    using shl5_range [of h] h by (simp add: abs_le_iff)
  then have "\<bar>shl5 h - h + \<lfloor>p\<rfloor>\<bar> \<le> 2 ^ 53" by (simp only: q_def)
  then have "rnd (real_of_int (shl5 h - h + \<lfloor>p\<rfloor>)) = Some (real_of_int (shl5 h - h + \<lfloor>p\<rfloor>))"
    using ex by blast
  with p show ?thesis by (rule embedding_step_exact)
qed

lemma foldl_embedding_step_poly:
  assumes ex: "\<forall>n::int. \<bar>n\<bar> \<le> 2 ^ 53 \<longrightarrow> rnd (real_of_int n) = Some (real_of_int n)"
  shows "list_all (\<lambda>x. case rnd (x * 1000) of None \<Rightarrow> False | Some p \<Rightarrow> \<bar>\<lfloor>p\<rfloor>\<bar> \<le> 2 ^ 52) xs \<Longrightarrow>
     - (2 ^ 31) \<le> h \<and> h < 2 ^ 31 \<Longrightarrow> h mod 2 ^ 32 = a mod 2 ^ 32 \<Longrightarrow>
     foldl (\<lambda>h x. embedding_step rnd h x) h xs mod 2 ^ 32 =
       foldl (\<lambda>a v. 31 * a + v) a
         (map (\<lambda>x. case rnd (x * 1000) of None \<Rightarrow> 0 | Some p \<Rightarrow> \<lfloor>p\<rfloor>) xs) mod 2 ^ 32"
proof (induction xs arbitrary: h a)
  case Nil
  then show ?case by simp
next
  case (Cons x xs)
  from Cons.prems(1) obtain p where p: "rnd (x * 1000) = Some p" and small: "\<bar>\<lfloor>p\<rfloor>\<bar> \<le> 2 ^ 52"
    and rest: "list_all (\<lambda>x. case rnd (x * 1000) of None \<Rightarrow> False | Some p \<Rightarrow> \<bar>\<lfloor>p\<rfloor>\<bar> \<le> 2 ^ 52) xs"
    by (auto split: option.splits)
  have st: "embedding_step rnd h x = hash_step h \<lfloor>p\<rfloor>"
    using ex p small Cons.prems(2) by (rule embedding_step_exact_small)
  have r: "- (2 ^ 31) \<le> hash_step h \<lfloor>p\<rfloor> \<and> hash_step h \<lfloor>p\<rfloor> < 2 ^ 31" by (rule hash_step_range)
  have c: "hash_step h \<lfloor>p\<rfloor> mod 2 ^ 32 = (31 * a + \<lfloor>p\<rfloor>) mod 2 ^ 32"
    using Cons.prems(3) by (rule hash_step_cong)
  show ?case using Cons.IH [OF rest r c] by (simp add: st p)
qed

lemma foldl_poly_append:
  "foldl (\<lambda>a v. 31 * a + v) a (xs @ ys) = foldl (\<lambda>a v. 31 * a + (v :: int)) (foldl (\<lambda>a v. 31 * a + v) a xs) ys"
  by simp

lemma foldl_poly_cong:
  "a mod 2 ^ 32 = b mod 2 ^ 32 \<Longrightarrow>
     foldl (\<lambda>a v. 31 * a + (v :: int)) a vs mod 2 ^ 32 = foldl (\<lambda>a v. 31 * a + v) b vs mod 2 ^ 32"
proof (induction vs arbitrary: a b)
  case Nil
  then show ?case by simp
next
  case (Cons v vs)
  have "(31 * a + v) mod 2 ^ 32 = (31 * b + v) mod 2 ^ 32"
    using Cons.prems by (rule poly_step_cong)
  then have "foldl (\<lambda>a v. 31 * a + v) (31 * a + v) vs mod 2 ^ 32 =
      foldl (\<lambda>a v. 31 * a + v) (31 * b + v) vs mod 2 ^ 32"
    by (rule Cons.IH)
  then show ?case by simp
qed

lemma embedding_hash_poly:
  assumes ex: "\<forall>n::int. \<bar>n\<bar> \<le> 2 ^ 53 \<longrightarrow> rnd (real_of_int n) = Some (real_of_int n)"
    and fin: "list_all (\<lambda>x. case rnd (x * 1000) of None \<Rightarrow> False | Some p \<Rightarrow> \<bar>\<lfloor>p\<rfloor>\<bar> \<le> 2 ^ 52) (take 10 e)"
  shows "embedding_hash rnd e (filename_hash f 0) mod 2 ^ 32 =
     foldl (\<lambda>a v. 31 * a + v) 0
       (map (\<lambda>c. int (of_char c)) f @
        map (\<lambda>x. case rnd (x * 1000) of None \<Rightarrow> 0 | Some p \<Rightarrow> \<lfloor>p\<rfloor>) (take 10 e)) mod 2 ^ 32"
proof -
  have t: "take (min 10 (length e)) e = take 10 e" by (simp add: min_def)
  have "embedding_hash rnd e (filename_hash f 0) mod 2 ^ 32 =
      foldl (\<lambda>a v. 31 * a + v) (filename_hash f 0)
        (map (\<lambda>x. case rnd (x * 1000) of None \<Rightarrow> 0 | Some p \<Rightarrow> \<lfloor>p\<rfloor>) (take 10 e)) mod 2 ^ 32"
    unfolding embedding_hash_def t
    by (rule foldl_embedding_step_poly [OF ex fin filename_hash_range]) simp
  also have "\<dots> = foldl (\<lambda>a v. 31 * a + v)
        (foldl (\<lambda>a v. 31 * a + v) 0 (map (\<lambda>c. int (of_char c)) f))
        (map (\<lambda>x. case rnd (x * 1000) of None \<Rightarrow> 0 | Some p \<Rightarrow> \<lfloor>p\<rfloor>) (take 10 e)) mod 2 ^ 32"
    by (rule foldl_poly_cong) (rule filename_hash_poly)
  finally show ?thesis by (simp only: foldl_poly_append)
qed

lemma hashValue_range: "0 \<le> hashValue_of rnd e f \<and> hashValue_of rnd e f < 100"
  by (simp add: hashValue_of_def)

lemma embedding_hash_take10: "embedding_hash rnd (take 10 e) h = embedding_hash rnd e h"
  by (simp add: embedding_hash_def min_def)

lemma classifyByEmbedding_take10:
  "e \<noteq> [] \<Longrightarrow> classifyByEmbedding rnd (take 10 e) f = classifyByEmbedding rnd e f"
  unfolding classifyByEmbedding_def hashValue_of_def embedding_hash_take10
  by (cases e) (simp_all add: min_def)

lemma determineCategories_fallback:
  assumes "e \<noteq> []"
    and "\<not> truthy (containsKeyword f vehicle_lists False)"
    and "\<not> truthy (containsKeyword f pet_lists False)"
    and "\<not> truthy (containsKeyword f nature_lists False)"
    and "\<not> truthy (containsKeyword f person_lists False)"
    and "\<not> truthy (containsKeyword f [KEYWORDS_person_names] True)"
  shows "determineCategories rnd e f = [classifyByEmbedding rnd e f]"
  using assms by (simp add: determineCategories_closed)

text \<open>The sample input: the double \<open>0.3\<close>, whose product with 1000 rounds up to \<open>300\<close>.\<close>

lemma double_0_3_product: "299 < double_0_3 * 1000 \<and> double_0_3 * 1000 < 300"
  by (simp add: double_0_3_def)

lemma sample_rounding_int: "sample_rounding (real_of_int n) = Some (real_of_int n)"
proof -
  have "real_of_int n \<noteq> double_0_3 * 1000"
  proof
    assume a: "real_of_int n = double_0_3 * 1000"
    with double_0_3_product have "299 < real_of_int n" and "real_of_int n < 300" by simp_all
    then have "299 < n" and "n < 300" by linarith+
    then show False by simp
  qed
  then show ?thesis by (simp add: sample_rounding_def)
qed

lemma sample_rounding_0_3: "sample_rounding (double_0_3 * 1000) = Some 300"
  by (simp add: sample_rounding_def)

lemma sample_rounding_250: "sample_rounding 250 = Some 250"
  using sample_rounding_int [of 250] by simp

lemmas sample_rounding_values = sample_rounding_0_3 sample_rounding_250

lemma embedding_step_sample:
  assumes "sample_rounding (e * 1000) = Some p" and "\<bar>\<lfloor>p\<rfloor>\<bar> \<le> 2 ^ 52"
    and "- (2 ^ 31) \<le> h \<and> h < 2 ^ 31"
  shows "embedding_step sample_rounding h e = hash_step h \<lfloor>p\<rfloor>"
proof -
  have ex: "\<forall>n::int. \<bar>n\<bar> \<le> 2 ^ 53 \<longrightarrow> sample_rounding (real_of_int n) = Some (real_of_int n)"
    by (simp add: sample_rounding_int)
  show ?thesis using ex assms by (rule embedding_step_exact_small)
qed

lemma hash_qqq: "filename_hash ''qqq.jpg'' 0 = 549628612"
  by (simp add: filename_hash_def hash_step_def shl5_def ToInt32_def)

lemma hash_qqq_emb: "embedding_hash sample_rounding [double_0_3, 1 / 4] 549628612 = - 87871726"
proof -
  have "embedding_step sample_rounding 549628612 double_0_3 = hash_step 549628612 \<lfloor>300 :: real\<rfloor>"
    by (rule embedding_step_sample) (simp_all add: sample_rounding_values)
  also have "\<dots> = - 141381912"
    by (simp add: hash_step_def shl5_def ToInt32_def)
  finally have 1: "embedding_step sample_rounding 549628612 double_0_3 = - 141381912" .
  have "embedding_step sample_rounding (- 141381912) (1 / 4) = hash_step (- 141381912) \<lfloor>250 :: real\<rfloor>"
    by (rule embedding_step_sample) (simp_all add: sample_rounding_values)
  also have "\<dots> = - 87871726"
    by (simp add: hash_step_def shl5_def ToInt32_def)
  finally have 2: "embedding_step sample_rounding (- 141381912) (1 / 4) = - 87871726" .
  show ?thesis
    by (simp add: embedding_hash_def 1 2)
qed

text \<open>
  Claim C8. For every embedding, the empty one included, and every file name, the
  \<open>objects\<close> list of the tags is not empty; it contains \<open>uncategorized\<close> exactly when no
  category flag is set and \<open>person_id\<close> is \<open>null\<close>; and each category that is set has its
  token in the list (\<open>vehicle\<close>, \<open>animal\<close>, \<open>outdoor\<close>, \<open>portrait\<close>).
\<close>

theorem analyzeEmbedding_objects_nonempty:
  "objects (fst (analyzeEmbedding rnd store e f)) \<noteq> [] \<and>
   (''uncategorized'' \<in> set (objects (fst (analyzeEmbedding rnd store e f))) \<longleftrightarrow>
      \<not> vehicle (fst (analyzeEmbedding rnd store e f)) \<and> \<not> pets (fst (analyzeEmbedding rnd store e f)) \<and>
      \<not> nature (fst (analyzeEmbedding rnd store e f)) \<and> person_id (fst (analyzeEmbedding rnd store e f)) = None) \<and>
   (vehicle (fst (analyzeEmbedding rnd store e f)) \<longleftrightarrow> ''vehicle'' \<in> set (objects (fst (analyzeEmbedding rnd store e f)))) \<and>
   (pets (fst (analyzeEmbedding rnd store e f)) \<longleftrightarrow> ''animal'' \<in> set (objects (fst (analyzeEmbedding rnd store e f)))) \<and>
   (nature (fst (analyzeEmbedding rnd store e f)) \<longleftrightarrow> ''outdoor'' \<in> set (objects (fst (analyzeEmbedding rnd store e f)))) \<and>
   (person_id (fst (analyzeEmbedding rnd store e f)) \<noteq> None \<longleftrightarrow>
      ''portrait'' \<in> set (objects (fst (analyzeEmbedding rnd store e f))))"
proof (cases "e = []")
  case True
  then show ?thesis using analyzeFilename_objects [of f] by (simp add: analyzeEmbedding_empty)
next
  case False
  have "determineCategories rnd e f \<noteq> []" and "Other \<notin> set (determineCategories rnd e f)"
    using determineCategories_nonempty_embedding [OF False, of rnd f] by simp_all
  then have "Vehicle \<in> set (determineCategories rnd e f) \<or> Pet \<in> set (determineCategories rnd e f) \<or>
             Nature \<in> set (determineCategories rnd e f) \<or> Person \<in> set (determineCategories rnd e f)"
    by (cases "determineCategories rnd e f"; simp) (metis category.exhaust)
  then show ?thesis
    unfolding analyzeEmbedding_nonempty [OF False] by auto
qed

theorem analyzeEmbedding_objects_nonempty_witness:
  "objects (fst (analyzeEmbedding sample_rounding [] [] ''qqq.jpg'')) = [''uncategorized''] \<and>
   \<not> vehicle (fst (analyzeEmbedding sample_rounding [] [] ''qqq.jpg'')) \<and>
   person_id (fst (analyzeEmbedding sample_rounding [] [] ''qqq.jpg'')) = None"
  using analyzeEmbedding_objects_nonempty
    [where rnd = sample_rounding and store = "[]" and e = "[]" and f = "''qqq.jpg''"]
  by (simp add: analyzeEmbedding_empty analyzeFilename_def Let_def empty_autoTags_def
        qqq_vehicle qqq_pet qqq_nature qqq_person)

text \<open>
  Claim C4. For a file name without a keyword match in any list and a non-empty embedding,
  whatever the rounding of doubles, \<open>determineCategories\<close> is the single category chosen
  by \<open>classifyByEmbedding\<close>, one of nature, pet, person, vehicle; the hash is a 32-bit
  signed integer, its absolute value modulo 100 lies in \<open>[0, 100)\<close> and selects the bucket
  \<open>[0,25)\<close> nature, \<open>[25,50)\<close> pet, \<open>[50,75)\<close> person, \<open>[75,100)\<close> vehicle; only the
  first ten embedding values count. The hash is the polynomial in 31 over the character
  codes of the file name followed by the floors of the rounded products \<open>e * 1000\<close> of the
  first ten embedding values, reduced to 32 bits: for the file name always, for the
  embedding values where every integer up to \<open>2^53\<close> is a double (as it is) and the
  products are finite and below \<open>2^52\<close> in size, so that no sum is rounded. The tags carry
  exactly the flag of the bucket and never \<open>uncategorized\<close>. The bucket is a function of
  file name and embedding alone, whatever the state of the registry.
\<close>

theorem hash_bucket_fallback:
  assumes "e \<noteq> []"
    and "\<not> truthy (containsKeyword f vehicle_lists False)"
    and "\<not> truthy (containsKeyword f pet_lists False)"
    and "\<not> truthy (containsKeyword f nature_lists False)"
    and "\<not> truthy (containsKeyword f person_lists False)"
    and "\<not> truthy (containsKeyword f [KEYWORDS_person_names] True)"
  shows "determineCategories rnd e f = [classifyByEmbedding rnd e f] \<and>
         classifyByEmbedding rnd e f \<in> {Nature, Pet, Person, Vehicle} \<and>
         - (2 ^ 31) \<le> embedding_hash rnd e (filename_hash f 0) \<and>
         embedding_hash rnd e (filename_hash f 0) < 2 ^ 31 \<and>
         0 \<le> \<bar>embedding_hash rnd e (filename_hash f 0)\<bar> mod 100 \<and>
         \<bar>embedding_hash rnd e (filename_hash f 0)\<bar> mod 100 < 100 \<and>
         classifyByEmbedding rnd e f =
           (if \<bar>embedding_hash rnd e (filename_hash f 0)\<bar> mod 100 < 25 then Nature
            else if \<bar>embedding_hash rnd e (filename_hash f 0)\<bar> mod 100 < 50 then Pet
            else if \<bar>embedding_hash rnd e (filename_hash f 0)\<bar> mod 100 < 75 then Person
            else Vehicle) \<and>
         classifyByEmbedding rnd (take 10 e) f = classifyByEmbedding rnd e f \<and>
         filename_hash f 0 mod 2 ^ 32 =
           foldl (\<lambda>a v. 31 * a + v) 0 (map (\<lambda>c. int (of_char c)) f) mod 2 ^ 32 \<and>
         ((\<forall>n::int. \<bar>n\<bar> \<le> 2 ^ 53 \<longrightarrow> rnd (real_of_int n) = Some (real_of_int n)) \<and>
          list_all (\<lambda>x. case rnd (x * 1000) of None \<Rightarrow> False | Some p \<Rightarrow> \<bar>\<lfloor>p\<rfloor>\<bar> \<le> 2 ^ 52)
            (take 10 e) \<longrightarrow>
          embedding_hash rnd e (filename_hash f 0) mod 2 ^ 32 =
            foldl (\<lambda>a v. 31 * a + v) 0
              (map (\<lambda>c. int (of_char c)) f @
               map (\<lambda>x. case rnd (x * 1000) of None \<Rightarrow> 0 | Some p \<Rightarrow> \<lfloor>p\<rfloor>) (take 10 e))
            mod 2 ^ 32) \<and>
         ''uncategorized'' \<notin> set (objects (fst (analyzeEmbedding rnd store e f))) \<and>
         nature (fst (analyzeEmbedding rnd store e f)) = (classifyByEmbedding rnd e f = Nature) \<and>
         pets (fst (analyzeEmbedding rnd store e f)) = (classifyByEmbedding rnd e f = Pet) \<and>
         (person_id (fst (analyzeEmbedding rnd store e f)) \<noteq> None) = (classifyByEmbedding rnd e f = Person) \<and>
         vehicle (fst (analyzeEmbedding rnd store e f)) = (classifyByEmbedding rnd e f = Vehicle)"
proof -
  have dc: "determineCategories rnd e f = [classifyByEmbedding rnd e f]"
    using assms by (rule determineCategories_fallback)
  have cases: "classifyByEmbedding rnd e f \<in> {Nature, Pet, Person, Vehicle}"
    using assms(1) by (rule classifyByEmbedding_cases)
  have bucket: "classifyByEmbedding rnd e f =
           (if \<bar>embedding_hash rnd e (filename_hash f 0)\<bar> mod 100 < 25 then Nature
            else if \<bar>embedding_hash rnd e (filename_hash f 0)\<bar> mod 100 < 50 then Pet
            else if \<bar>embedding_hash rnd e (filename_hash f 0)\<bar> mod 100 < 75 then Person
            else Vehicle)"
    using assms(1) by (simp add: classifyByEmbedding_def hashValue_of_def Let_def)
  have poly: "(\<forall>n::int. \<bar>n\<bar> \<le> 2 ^ 53 \<longrightarrow> rnd (real_of_int n) = Some (real_of_int n)) \<and>
          list_all (\<lambda>x. case rnd (x * 1000) of None \<Rightarrow> False | Some p \<Rightarrow> \<bar>\<lfloor>p\<rfloor>\<bar> \<le> 2 ^ 52)
            (take 10 e) \<longrightarrow>
          embedding_hash rnd e (filename_hash f 0) mod 2 ^ 32 =
            foldl (\<lambda>a v. 31 * a + v) 0
              (map (\<lambda>c. int (of_char c)) f @
               map (\<lambda>x. case rnd (x * 1000) of None \<Rightarrow> 0 | Some p \<Rightarrow> \<lfloor>p\<rfloor>) (take 10 e))
            mod 2 ^ 32"
    using embedding_hash_poly [of rnd e f] by blast
  have tags: "''uncategorized'' \<notin> set (objects (fst (analyzeEmbedding rnd store e f))) \<and>
         nature (fst (analyzeEmbedding rnd store e f)) = (classifyByEmbedding rnd e f = Nature) \<and>
         pets (fst (analyzeEmbedding rnd store e f)) = (classifyByEmbedding rnd e f = Pet) \<and>
         (person_id (fst (analyzeEmbedding rnd store e f)) \<noteq> None) = (classifyByEmbedding rnd e f = Person) \<and>
         vehicle (fst (analyzeEmbedding rnd store e f)) = (classifyByEmbedding rnd e f = Vehicle)"
    unfolding analyzeEmbedding_nonempty [OF assms(1)] dc using cases by auto
  have hv: "0 \<le> \<bar>embedding_hash rnd e (filename_hash f 0)\<bar> mod 100 \<and>
            \<bar>embedding_hash rnd e (filename_hash f 0)\<bar> mod 100 < 100"
    by simp
  show ?thesis
    using dc cases bucket tags hv hash_range [of rnd e f] filename_hash_poly [of f] poly
      classifyByEmbedding_take10 [OF assms(1), of rnd f]
    by (intro conjI) blast+
qed

theorem hash_bucket_fallback_witness:
  "determineCategories sample_rounding [double_0_3, 1 / 4] ''qqq.jpg'' = [Pet] \<and>
   classifyByEmbedding sample_rounding [double_0_3, 1 / 4] ''qqq.jpg'' = Pet \<and>
   embedding_hash sample_rounding [double_0_3, 1 / 4] (filename_hash ''qqq.jpg'' 0) = - 87871726 \<and>
   embedding_hash sample_rounding [double_0_3, 1 / 4] (filename_hash ''qqq.jpg'' 0) mod 2 ^ 32 =
     foldl (\<lambda>a v. 31 * a + v) 0 [113, 113, 113, 46, 106, 112, 103, 300, 250] mod 2 ^ 32 \<and>
   fst (analyzeEmbedding sample_rounding [] [double_0_3, 1 / 4] ''qqq.jpg'') =
     \<lparr>person_id = None, nature = False, pets = True, vehicle = False, objects = [''animal'']\<rparr>"
proof -
  let ?e = "[double_0_3, 1 / 4]"
  have ne: "?e \<noteq> []" by simp
  have ex: "\<forall>n::int. \<bar>n\<bar> \<le> 2 ^ 53 \<longrightarrow> sample_rounding (real_of_int n) = Some (real_of_int n)"
    by (simp add: sample_rounding_int)
  have fin: "list_all (\<lambda>x. case sample_rounding (x * 1000) of None \<Rightarrow> False
                          | Some p \<Rightarrow> \<bar>\<lfloor>p\<rfloor>\<bar> \<le> 2 ^ 52) (take 10 ?e)"
    by (simp add: sample_rounding_values)
  note t = hash_bucket_fallback [where rnd = sample_rounding and e = ?e and f = "''qqq.jpg''"
      and store = "[]", OF ne]
  have k: "\<not> truthy (containsKeyword ''qqq.jpg'' vehicle_lists False)"
    "\<not> truthy (containsKeyword ''qqq.jpg'' pet_lists False)"
    "\<not> truthy (containsKeyword ''qqq.jpg'' nature_lists False)"
    "\<not> truthy (containsKeyword ''qqq.jpg'' person_lists False)"
    "\<not> truthy (containsKeyword ''qqq.jpg'' [KEYWORDS_person_names] True)"
    by (simp_all add: qqq_vehicle qqq_pet qqq_nature qqq_person qqq_names)
  note u = t [OF k]
  have h: "embedding_hash sample_rounding ?e (filename_hash ''qqq.jpg'' 0) = - 87871726"
    by (simp add: hash_qqq hash_qqq_emb)
  have c: "classifyByEmbedding sample_rounding ?e ''qqq.jpg'' = Pet"
    using u [THEN conjunct2, THEN conjunct2, THEN conjunct2, THEN conjunct2, THEN conjunct2,
             THEN conjunct2, THEN conjunct1]
    unfolding h by simp
  have d: "determineCategories sample_rounding ?e ''qqq.jpg'' = [Pet]"
    using u [THEN conjunct1] c by simp
  have "embedding_hash sample_rounding ?e (filename_hash ''qqq.jpg'' 0) mod 2 ^ 32 =
      foldl (\<lambda>a v. 31 * a + v) 0
        (map (\<lambda>c. int (of_char c)) ''qqq.jpg'' @
         map (\<lambda>x. case sample_rounding (x * 1000) of None \<Rightarrow> 0 | Some p \<Rightarrow> \<lfloor>p\<rfloor>) (take 10 ?e))
      mod 2 ^ 32"
    using u [THEN conjunct2, THEN conjunct2, THEN conjunct2, THEN conjunct2, THEN conjunct2,
             THEN conjunct2, THEN conjunct2, THEN conjunct2, THEN conjunct2, THEN conjunct1,
             THEN mp, OF conjI [OF ex fin]] .
  then have p: "embedding_hash sample_rounding ?e (filename_hash ''qqq.jpg'' 0) mod 2 ^ 32 =
      foldl (\<lambda>a v. 31 * a + v) 0 [113, 113, 113, 46, 106, 112, 103, 300, 250] mod 2 ^ 32"
    by (simp add: sample_rounding_values)
  have a: "fst (analyzeEmbedding sample_rounding [] ?e ''qqq.jpg'') =
     \<lparr>person_id = None, nature = False, pets = True, vehicle = False, objects = [''animal'']\<rparr>"
    by (simp add: analyzeEmbedding_nonempty [OF ne] d)
  show ?thesis using d c h p a by (intro conjI)
qed

text \<open>
  Claim C9. For \<open>mercedes_benz.jpg\<close> the vehicle lists match on the brand \<open>mercedes\<close>;
  neither the person lists nor the name list (matched with strict word boundaries) match,
  although the name \<open>ed\<close> is a substring and would match loosely. Whatever the embedding
  and the registry, the categories are \<open>[Vehicle]\<close>, \<open>vehicle\<close> is set, \<open>person_id\<close> stays
  \<open>null\<close> and the registry is untouched.
\<close>

theorem mercedes_benz_is_vehicle_not_person:
  "containsKeyword ''mercedes_benz.jpg'' vehicle_lists False = Some ''mercedes'' \<and>
   containsKeyword ''mercedes_benz.jpg'' person_lists False = None \<and>
   containsKeyword ''mercedes_benz.jpg'' [KEYWORDS_person_names] True = None \<and>
   containsKeyword ''mercedes_benz.jpg'' [KEYWORDS_person_names] False = Some ''ed'' \<and>
   determineCategories rnd e ''mercedes_benz.jpg'' = [Vehicle] \<and>
   Person \<notin> set (determineCategories rnd e ''mercedes_benz.jpg'') \<and>
   analyzeEmbedding rnd store e ''mercedes_benz.jpg'' =
     (\<lparr>person_id = None, nature = False, pets = False, vehicle = True, objects = [''vehicle'']\<rparr>, store)"
proof -
  have d: "determineCategories rnd e ''mercedes_benz.jpg'' = [Vehicle]"
    by (simp add: determineCategories_closed mb_vehicle mb_pet mb_nature mb_person mb_names)
  have af: "analyzeFilename ''mercedes_benz.jpg'' =
      \<lparr>person_id = None, nature = False, pets = False, vehicle = True, objects = [''vehicle'']\<rparr>"
    by (simp add: analyzeFilename_def Let_def empty_autoTags_def mb_vehicle mb_pet mb_nature mb_person)
  have a: "analyzeEmbedding rnd store e ''mercedes_benz.jpg'' =
     (\<lparr>person_id = None, nature = False, pets = False, vehicle = True, objects = [''vehicle'']\<rparr>, store)"
  proof (cases "e = []")
    case True
    then show ?thesis by (simp add: analyzeEmbedding_empty af)
  next
    case False
    then show ?thesis
      by (simp add: analyzeEmbedding_def Let_def d empty_autoTags_def)
  qed
  show ?thesis
    using d a by (simp add: mb_vehicle mb_person mb_names mb_names_loose)
qed

theorem mercedes_benz_is_vehicle_not_person_witness:
  "vehicle (fst (analyzeEmbedding sample_rounding [] [double_0_3, 1 / 4] ''mercedes_benz.jpg'')) \<and>
   person_id (fst (analyzeEmbedding sample_rounding [] [double_0_3, 1 / 4] ''mercedes_benz.jpg'')) = None \<and>
   snd (analyzeEmbedding sample_rounding [] [double_0_3, 1 / 4] ''mercedes_benz.jpg'') = []"
  using mercedes_benz_is_vehicle_not_person
    [where rnd = sample_rounding and e = "[double_0_3, 1 / 4]" and store = "[]"]
  by simp

end
